theory Spec2Isabelle
  imports Main "HOL-Library.AList" "HOL-Library.Signed_Division" "HOL-Library.Multiset"
    "HOL-Library.Product_Lexorder"
begin

section \<open>Machine integers, hashes and byte strings\<close>

text \<open>
  Go's \<open>int64\<close> is modelled as an \<open>int\<close> whose arithmetic wraps around explicitly:
  \<open>add64\<close> and \<open>sub64\<close> are Go's \<open>+\<close> and \<open>-\<close> on \<open>int64\<close>. Comparisons of
  \<open>int64\<close> values are the comparisons of \<open>int\<close>.
\<close>

type_synonym int64 = int

definition wrap64 :: "int \<Rightarrow> int64" where
  "wrap64 x = (x + 2 ^ 63) mod 2 ^ 64 - 2 ^ 63"

definition add64 :: "int64 \<Rightarrow> int64 \<Rightarrow> int64" where
  "add64 a b = wrap64 (a + b)"

definition sub64 :: "int64 \<Rightarrow> int64 \<Rightarrow> int64" where
  "sub64 a b = wrap64 (a - b)"

text \<open>The conversion \<open>uint64(v)\<close> of an \<open>int64\<close>, and \<open>+\<close> on \<open>uint64\<close>.\<close>

definition uint64 :: "int64 \<Rightarrow> nat" where
  "uint64 v = nat (v mod 2 ^ 64)"

definition addU64 :: "nat \<Rightarrow> nat \<Rightarrow> nat" where
  "addU64 a b = nat ((int a + int b) mod 2 ^ 64)"

text \<open>
  An \<open>EventHash\<close> is a 32-byte array in the source; it is modelled as the number it
  spells, the zero hash being \<open>0\<close> (\<open>EventHash.Zero\<close>). A byte string is the list of
  its byte values.
\<close>

type_synonym EventHash = nat

type_synonym bytes = "nat list"

definition Zero :: "EventHash \<Rightarrow> bool" where
  "Zero h = (h = 0)"

text \<open>
  A \<open>FlagTable\<close> is a Go \<open>map[EventHash]int64\<close>. A Go map that the code ranges over is
  modelled as an association list with distinct keys: \<open>map_of\<close> reads it,
  \<open>AList.update\<close> is the assignment \<open>m[k] = v\<close>, \<open>length\<close> is \<open>len\<close>, and the order
  of the list stands for the (unspecified) order in which \<open>range\<close> visits the keys.
\<close>

type_synonym FlagTable = "(EventHash \<times> int64) list"

definition NewFlagTable :: FlagTable where
  "NewFlagTable = []"

section \<open>Errors\<close>

text \<open>
  \<open>StoreErr name kind key\<close> is \<open>common.NewStoreErr\<close>; \<open>Wrap s e\<close> is
  \<open>fmt.Errorf(s + ": %s", e)\<close>; \<open>Msg s\<close> is \<open>fmt.Errorf(s)\<close>; \<open>Opaque n\<close> is an error
  produced by code that is not part of the sources.
\<close>

datatype StoreErrType = KeyNotFound | TooLate | PassedIndex | SkippedIndex | NoRoot
  | UnknownParticipant | Empty | KeyAlreadyExists

datatype error =
    StoreErr string StoreErrType
  | Msg string
  | Wrap string error
  | Opaque nat

definition isDBKeyNotFound :: "error \<Rightarrow> bool" where
  "isDBKeyNotFound e = (case e of StoreErr n k \<Rightarrow> k = KeyNotFound | _ \<Rightarrow> False)"

section \<open>Participants and quorum thresholds\<close>

record Peer =
  ID :: nat
  NetAddr :: string
  PubKeyHex :: string

record Peers =
  Sorted :: "Peer list"

definition ReadByPubKey :: "Peers \<Rightarrow> string \<Rightarrow> Peer option" where
  "ReadByPubKey ps k = find (\<lambda>p. PubKeyHex p = k) (Sorted ps)"

definition ReadByID :: "Peers \<Rightarrow> nat \<Rightarrow> Peer option" where
  "ReadByID ps i = find (\<lambda>p. ID p = i) (Sorted ps)"

text \<open>
  Modelled from the spec: \<open>peers.Peers.GetSuperMajority\<close> and \<open>GetTrustCount\<close> are
  not part of the sources (the Poset only forwards to them). The spec's section 8
  lists the values expected of them for 1 to 10 participants; \<open>superMajorityOf\<close> and
  \<open>trustCountOf\<close> are the functions of the participant count that give these
  values. The two closed formulas the spec writes for the supermajority
  (sections 4.3 and 2) are kept apart as \<open>superMajority_sec43\<close> and
  \<open>superMajority_sec2\<close>.
\<close>

definition superMajorityOf :: "nat \<Rightarrow> nat" where
  "superMajorityOf n = 2 * n div 3 + 1"

definition trustCountOf :: "nat \<Rightarrow> nat" where
  "trustCountOf n = n div 3"

definition superMajority_sec43 :: "nat \<Rightarrow> nat" where
  "superMajority_sec43 n = 2 * (n div 3) + 1"

definition superMajority_sec2 :: "nat \<Rightarrow> nat" where
  "superMajority_sec2 n = (2 * n + 2) div 3 + 1"

definition Peers_GetSuperMajority :: "Peers \<Rightarrow> nat" where
  "Peers_GetSuperMajority ps = superMajorityOf (length (Sorted ps))"

definition Peers_GetTrustCount :: "Peers \<Rightarrow> nat" where
  "Peers_GetTrustCount ps = trustCountOf (length (Sorted ps))"

text \<open>A registry of \<open>n\<close> participants, numbered from 1.\<close>

definition nPeers :: "nat \<Rightarrow> Peers" where
  "nPeers n = \<lparr>Sorted = map (\<lambda>i. \<lparr>ID = i, NetAddr = [], PubKeyHex = replicate i CHR ''A''\<rparr>) [1..<Suc n]\<rparr>"

section \<open>Events, roots, blocks\<close>

text \<open>
  The messages of the protocol-buffer file (\<open>BlockSignature\<close>, \<open>EventBody\<close>,
  \<open>EventMessage\<close>, \<open>Event\<close>), flattened into one record per Go value. The two
  entries of \<open>Body.Parents\<close> are the fields \<open>SelfParent\<close> and \<open>OtherParent\<close>;
  \<open>Creator\<close> is the creator's public key as \<open>GetCreator\<close> prints it; \<open>Hash\<close> is
  the content hash that \<open>Event.Hash\<close> returns. The vote arrays \<open>AtTimes\<close>,
  \<open>AtVisited\<close> and \<open>RecFrames\<close> are written by \<open>AssignAtroposTime\<close> only, which
  nothing calls, and are left out, as are the internal transactions.
\<close>

record BlockSignature =
  Validator :: bytes
  bsIndex :: int64
  bsSignature :: string

record Event =
  Transactions :: "bytes list"
  SelfParent :: EventHash
  OtherParent :: EventHash
  Creator :: string
  Index :: int64
  BlockSignatures :: "BlockSignature list"
  Signature :: string
  SelfParentIndex :: int64
  OtherParentCreatorID :: nat
  OtherParentIndex :: int64
  CreatorID :: nat
  TopologicalIndex :: int64
  Hash :: EventHash
  LamportTimestamp :: int64
  Frame :: int64
  FlagTableBytes :: bytes
  RootTableBytes :: bytes
  Root :: bool
  Clotho :: bool
  Atropos :: bool
  AtroposTimestamp :: int64
  FrameReceived :: int64

text \<open>The zero value \<open>Event{}\<close>, which \<open>GetEventBlock\<close> returns beside an error.\<close>

definition zeroEvent :: Event where
  "zeroEvent = \<lparr>Transactions = [], SelfParent = 0, OtherParent = 0, Creator = [], Index = 0,
     BlockSignatures = [], Signature = [], SelfParentIndex = 0, OtherParentCreatorID = 0,
     OtherParentIndex = 0, CreatorID = 0, TopologicalIndex = 0, Hash = 0,
     LamportTimestamp = 0, Frame = 0, FlagTableBytes = [], RootTableBytes = [],
     Root = False, Clotho = False, Atropos = False, AtroposTimestamp = 0,
     FrameReceived = 0\<rparr>"

record RootEvent =
  reHash :: EventHash
  reCreatorID :: nat
  reIndex :: int64
  reLamportTimestamp :: int64
  reRound :: int64

text \<open>\<open>Others\<close> is keyed by the hash of the event whose other-parent it describes.\<close>

record Root =
  NextRound :: int64
  rootSelfParent :: RootEvent
  Others :: "EventHash \<rightharpoonup> RootEvent"

text \<open>
  Modelled from the spec: \<open>NewBaseRoot\<close> is not part of the sources. The spec's data
  model gives the self-parent descriptor of a participant's initial root: a
  pseudo-hash, the creator id, index -1, lamport -1, round -1, and no others. The
  pseudo-hash (\<open>GenRootSelfParent\<close>) is a parameter.
\<close>

definition NewBaseRoot :: "(nat \<Rightarrow> EventHash) \<Rightarrow> nat \<Rightarrow> Root" where
  "NewBaseRoot GenRootSelfParent peerID =
     \<lparr>NextRound = 0,
      rootSelfParent = \<lparr>reHash = GenRootSelfParent peerID, reCreatorID = peerID, reIndex = -1,
         reLamportTimestamp = -1, reRound = -1\<rparr>,
      Others = Map.empty\<rparr>"

record Block =
  blockIndex :: int64
  blockRoundReceived :: int64
  blockTransactions :: "bytes list"
  Signatures :: "(string \<times> string) list"

record RoundCreated =
  Queued :: bool
  roundEvents :: "(EventHash \<times> bool) list"

record RoundReceived =
  Rounds :: "EventHash list"

section \<open>The code that is not part of the sources\<close>

text \<open>
  The Poset and the in-memory store are in the sources; the event methods, the
  flag-table codec, the participant-event cache and the block methods they call
  are not. What the sources leave open is a parameter of the model:
  \<^item> \<open>Verify\<close> is \<open>Event.Verify\<close>, returning \<open>(ok, err)\<close>;
  \<^item> \<open>IsLoaded\<close> is \<open>Event.IsLoaded\<close>;
  \<^item> \<open>Marshal\<close> and \<open>Unmarshal\<close> are the codec of \<open>FlagTable\<close>;
  \<^item> \<open>MergeFlagTable\<close> is \<open>Event.MergeFlagTable(table, frame)\<close>;
  \<^item> \<open>LamportTimestampNIL\<close> is the constant of that name;
  \<^item> \<open>PESetError\<close> says when \<open>ParticipantEventsCache.Set\<close> refuses an entry, given
    the participant's entries so far, the hash and the index;
  \<^item> \<open>BlockVerify\<close> is \<open>Block.Verify\<close>, returning \<open>(valid, err)\<close>;
  \<^item> \<open>FlagTableHash\<close> and \<open>SignatureXOR\<close> are the two quantities the spec names in
    the ordering of a frame's events, which it does not define further.
\<close>

record env =
  Verify :: "Event \<Rightarrow> bool \<times> error option"
  IsLoaded :: "Event \<Rightarrow> bool"
  Marshal :: "FlagTable \<Rightarrow> bytes"
  Unmarshal :: "bytes \<Rightarrow> error + FlagTable"
  MergeFlagTable :: "Event \<Rightarrow> FlagTable \<Rightarrow> int64 \<Rightarrow> error + FlagTable"
  LamportTimestampNIL :: int64
  PESetError :: "(int64 \<times> EventHash) list \<Rightarrow> EventHash \<Rightarrow> int64 \<Rightarrow> error option"
  BlockVerify :: "Block \<Rightarrow> BlockSignature \<Rightarrow> bool \<times> error option"
  FlagTableHash :: "Event \<Rightarrow> nat"
  SignatureXOR :: "Event \<Rightarrow> nat"

text \<open>\<open>Event.GetFlagTable\<close> and \<open>Event.GetRootTable\<close> decode the two byte fields.\<close>

definition GetFlagTable :: "env \<Rightarrow> Event \<Rightarrow> error + FlagTable" where
  "GetFlagTable env e = Unmarshal env (FlagTableBytes e)"

definition GetRootTable :: "env \<Rightarrow> Event \<Rightarrow> error + FlagTable" where
  "GetRootTable env e = Unmarshal env (RootTableBytes e)"

section \<open>The in-memory store\<close>

text \<open>
  \<open>InmemStore\<close>. Its LRU caches are modelled as maps that never evict (the cache
  size is taken to be large enough). The keys of the two clotho-check caches are
  the strings \<open>checkClothoKeyStr\<close> and \<open>checkClothoCreatorKeyStr\<close> print, which
  determine the pair they are printed from; the pair is the key here. The
  time-table cache holds encoded tables, as the source does.

  Modelled from the spec: \<open>ParticipantEventsCache\<close> and \<open>common.RollingIndex\<close> are not
  part of the sources. The spec's store interface has a participant-event lookup by
  (public key, local index) and a last-event-from per participant: the cache is,
  per participant, the list of (index, hash) entries in the order they were set,
  \<open>GetLast\<close> returns the hash set last or the error \<open>Empty\<close>, and \<open>Set\<close> appends
  unless \<open>PESetError\<close> refuses. The consensus cache is the list of the consensus
  events' hashes in the order they were added.
\<close>

record Store =
  eventCache :: "EventHash \<rightharpoonup> Event"
  participantEventsCache :: "string \<Rightarrow> (int64 \<times> EventHash) list"
  rootsByParticipant :: "(string \<times> Root) list"
  rootsBySelfParent :: "(EventHash \<times> Root) list option"
  roundCreatedCache :: "int64 \<rightharpoonup> RoundCreated"
  roundReceivedCache :: "int64 \<rightharpoonup> RoundReceived"
  blockCache :: "int64 \<rightharpoonup> Block"
  clothoCheckCache :: "(int64 \<times> EventHash) \<rightharpoonup> EventHash"
  clothoCheckCreatorCache :: "(int64 \<times> nat) \<rightharpoonup> EventHash"
  timeTableCache :: "EventHash \<rightharpoonup> bytes"
  consensusCache :: "EventHash list"
  totConsensusEvents :: int64
  lastConsensusEvents :: "string \<rightharpoonup> EventHash"
  lastRound :: int64
  lastBlock :: int64

definition RootsBySelfParent :: "Store \<Rightarrow> (EventHash \<times> Root) list \<times> Store" where
  "RootsBySelfParent s =
     (case rootsBySelfParent s of
        Some m \<Rightarrow> (m, s)
      | None \<Rightarrow>
          (let m = foldl (\<lambda>m (pk, root). AList.update (reHash (rootSelfParent root)) root m) []
                     (rootsByParticipant s)
           in (m, s\<lparr>rootsBySelfParent := Some m\<rparr>)))"

definition GetEventBlock :: "Store \<Rightarrow> EventHash \<Rightarrow> error + Event" where
  "GetEventBlock s hash =
     (case eventCache s hash of
        None \<Rightarrow> Inl (StoreErr ''EventCache'' KeyNotFound)
      | Some res \<Rightarrow> Inr res)"

text \<open>
  The pattern \<open>ev, err := p.Store.GetEventBlock(h)\<close> followed by a warning only:
  the event, or the zero event when there is none.
\<close>

definition eventOrZero :: "Store \<Rightarrow> EventHash \<Rightarrow> Event" where
  "eventOrZero s hash = (case GetEventBlock s hash of Inl err \<Rightarrow> zeroEvent | Inr ev \<Rightarrow> ev)"

definition addParticipantEvent :: "env \<Rightarrow> Store \<Rightarrow> string \<Rightarrow> EventHash \<Rightarrow> int64 \<Rightarrow> error + Store" where
  "addParticipantEvent env s participant hash index =
     (case PESetError env (participantEventsCache s participant) hash index of
        Some err \<Rightarrow> Inl err
      | None \<Rightarrow> Inr (s\<lparr>participantEventsCache :=
          (participantEventsCache s)(participant := participantEventsCache s participant @ [(index, hash)])\<rparr>))"

definition SetEvent :: "env \<Rightarrow> Store \<Rightarrow> Event \<Rightarrow> error + Store" where
  "SetEvent env s event =
     (case GetEventBlock s (Hash event) of
        Inl err \<Rightarrow>
          (if \<not> isDBKeyNotFound err then Inl err
           else (case addParticipantEvent env s (Creator event) (Hash event) (Index event) of
                   Inl err' \<Rightarrow> Inl err'
                 | Inr s' \<Rightarrow> Inr (s'\<lparr>eventCache := (eventCache s')(Hash event \<mapsto> event)\<rparr>)))
      | Inr _ \<Rightarrow> Inr (s\<lparr>eventCache := (eventCache s)(Hash event \<mapsto> event)\<rparr>))"

definition GetLast :: "Store \<Rightarrow> string \<Rightarrow> error + EventHash" where
  "GetLast s participant =
     (case participantEventsCache s participant of
        [] \<Rightarrow> Inl (StoreErr ''ParticipantEvents'' Empty)
      | x # xs \<Rightarrow> Inr (snd (last (x # xs))))"

definition isEmptyErr :: "error \<Rightarrow> bool" where
  "isEmptyErr e = (case e of StoreErr n k \<Rightarrow> k = Empty | _ \<Rightarrow> False)"

definition LastEventFrom :: "Store \<Rightarrow> string \<Rightarrow> error + (EventHash \<times> bool)" where
  "LastEventFrom s participant =
     (case GetLast s participant of
        Inr lastHash \<Rightarrow> Inr (lastHash, False)
      | Inl err \<Rightarrow>
          (if \<not> isEmptyErr err then Inl err
           else (case map_of (rootsByParticipant s) participant of
                   Some root \<Rightarrow> Inr (reHash (rootSelfParent root), True)
                 | None \<Rightarrow> Inl (StoreErr ''InmemStore.Roots'' NoRoot))))"

definition GetRoot :: "Store \<Rightarrow> string \<Rightarrow> error + Root" where
  "GetRoot s participant =
     (case map_of (rootsByParticipant s) participant of
        None \<Rightarrow> Inl (StoreErr ''RootCache'' KeyNotFound)
      | Some res \<Rightarrow> Inr res)"

definition AddConsensusEvent :: "Store \<Rightarrow> Event \<Rightarrow> Store" where
  "AddConsensusEvent s event =
     s\<lparr>consensusCache := consensusCache s @ [Hash event],
       totConsensusEvents := add64 (totConsensusEvents s) 1,
       lastConsensusEvents := (lastConsensusEvents s)(Creator event \<mapsto> Hash event)\<rparr>"

definition SetRoundCreated :: "Store \<Rightarrow> int64 \<Rightarrow> RoundCreated \<Rightarrow> Store" where
  "SetRoundCreated s r rc =
     s\<lparr>roundCreatedCache := (roundCreatedCache s)(r \<mapsto> rc),
       lastRound := (if r > lastRound s then r else lastRound s)\<rparr>"

definition GetRoundReceived :: "Store \<Rightarrow> int64 \<Rightarrow> error + RoundReceived" where
  "GetRoundReceived s r =
     (case roundReceivedCache s r of
        None \<Rightarrow> Inl (StoreErr ''RoundReceivedCache'' KeyNotFound)
      | Some res \<Rightarrow> Inr res)"

definition GetBlock :: "Store \<Rightarrow> int64 \<Rightarrow> error + Block" where
  "GetBlock s index =
     (case blockCache s index of
        None \<Rightarrow> Inl (StoreErr ''BlockCache'' KeyNotFound)
      | Some res \<Rightarrow> Inr res)"

definition SetBlock :: "Store \<Rightarrow> Block \<Rightarrow> Store" where
  "SetBlock s block =
     s\<lparr>blockCache := (blockCache s)(blockIndex block \<mapsto> block),
       lastBlock := (if blockIndex block > lastBlock s then blockIndex block else lastBlock s)\<rparr>"

definition AddClothoCheck :: "Store \<Rightarrow> int64 \<Rightarrow> nat \<Rightarrow> EventHash \<Rightarrow> Store" where
  "AddClothoCheck s frame creatorID hash =
     s\<lparr>clothoCheckCache := (clothoCheckCache s)((frame, hash) \<mapsto> hash),
       clothoCheckCreatorCache := (clothoCheckCreatorCache s)((frame, creatorID) \<mapsto> hash)\<rparr>"

definition GetClothoCheck :: "Store \<Rightarrow> int64 \<Rightarrow> EventHash \<Rightarrow> error + EventHash" where
  "GetClothoCheck s frame phash =
     (case clothoCheckCache s (frame, phash) of
        None \<Rightarrow> Inl (StoreErr ''ClothoCheckCache'' KeyNotFound)
      | Some res \<Rightarrow> Inr res)"

definition GetClothoCreatorCheck :: "Store \<Rightarrow> int64 \<Rightarrow> nat \<Rightarrow> error + EventHash" where
  "GetClothoCreatorCheck s frame creatorID =
     (case clothoCheckCreatorCache s (frame, creatorID) of
        None \<Rightarrow> Inl (StoreErr ''ClothoCheckCreatorCache'' KeyNotFound)
      | Some res \<Rightarrow> Inr res)"

text \<open>
  Both time-table functions drop the error of \<open>Unmarshal\<close>; the table then stays
  the fresh one \<open>NewFlagTable\<close> made.
\<close>

definition decodeOrNew :: "env \<Rightarrow> bytes \<Rightarrow> FlagTable" where
  "decodeOrNew env res = (case Unmarshal env res of Inr ft \<Rightarrow> ft | Inl _ \<Rightarrow> NewFlagTable)"

definition AddTimeTable :: "env \<Rightarrow> Store \<Rightarrow> EventHash \<Rightarrow> EventHash \<Rightarrow> int64 \<Rightarrow> Store" where
  "AddTimeTable env s hashTo hashFrom lamportTime =
     (let ft = (case timeTableCache s hashTo of
                  Some res \<Rightarrow> decodeOrNew env res
                | None \<Rightarrow> NewFlagTable)
      in s\<lparr>timeTableCache :=
           (timeTableCache s)(hashTo \<mapsto> Marshal env (AList.update hashFrom lamportTime ft))\<rparr>)"

definition GetTimeTable :: "env \<Rightarrow> Store \<Rightarrow> EventHash \<Rightarrow> error + FlagTable" where
  "GetTimeTable env s hash =
     (case timeTableCache s hash of
        None \<Rightarrow> Inl (StoreErr ''GetTimeTableCache'' KeyNotFound)
      | Some res \<Rightarrow> Inr (decodeOrNew env res))"

text \<open>
  \<open>NewInmemStore\<close>: a base root for every participant, empty caches, and -1 for the
  last round and the last block. The genesis state is not modelled.
\<close>

definition NewInmemStore :: "(nat \<Rightarrow> EventHash) \<Rightarrow> Peers \<Rightarrow> Store" where
  "NewInmemStore GenRootSelfParent participants =
     \<lparr>eventCache = Map.empty,
      participantEventsCache = (\<lambda>pk. []),
      rootsByParticipant =
        map (\<lambda>pid. (PubKeyHex pid, NewBaseRoot GenRootSelfParent (ID pid))) (Sorted participants),
      rootsBySelfParent = None,
      roundCreatedCache = Map.empty,
      roundReceivedCache = Map.empty,
      blockCache = Map.empty,
      clothoCheckCache = Map.empty,
      clothoCheckCreatorCache = Map.empty,
      timeTableCache = Map.empty,
      consensusCache = [],
      totConsensusEvents = 0,
      lastConsensusEvents = Map.empty,
      lastRound = - 1,
      lastBlock = - 1\<rparr>"

section \<open>The Poset\<close>

text \<open>
  The fields of \<open>Poset\<close> that the modelled methods read or write. A nil
  \<open>*int64\<close> is \<open>None\<close>.
\<close>

record Poset =
  Participants :: Peers
  Store :: Store
  UndeterminedEvents :: "EventHash list"
  LastConsensusRound :: "int64 option"
  FirstConsensusRound :: "int64 option"
  AnchorBlock :: "int64 option"
  SigPool :: "BlockSignature list"
  ConsensusTransactions :: nat
  pendingLoadedEvents :: int64
  topologicalIndex :: int64
  timestampCache :: "EventHash \<rightharpoonup> int64"

definition NewPoset :: "Peers \<Rightarrow> Store \<Rightarrow> Poset" where
  "NewPoset participants store =
     \<lparr>Participants = participants, Store = store, UndeterminedEvents = [],
      LastConsensusRound = None, FirstConsensusRound = None, AnchorBlock = None,
      SigPool = [], ConsensusTransactions = 0, pendingLoadedEvents = 0,
      topologicalIndex = 0, timestampCache = Map.empty\<rparr>"

text \<open>
  The outcome of a method that may end the process or run forever: \<open>Done r p\<close> is
  a return of \<open>r\<close> in state \<open>p\<close>; \<open>Exit e\<close> is \<open>logger.Fatal\<close> or a panic; \<open>Timeout\<close>
  is a recursion that did not end within the given depth.
\<close>

datatype 'a run = Done 'a Poset | Exit error | Timeout

definition setLastConsensusRound :: "int64 \<Rightarrow> Poset \<Rightarrow> Poset" where
  "setLastConsensusRound i p =
     p\<lparr>LastConsensusRound := Some i,
       FirstConsensusRound := (case FirstConsensusRound p of None \<Rightarrow> Some i | Some f \<Rightarrow> Some f)\<rparr>"

definition setAnchorBlock :: "int64 \<Rightarrow> Poset \<Rightarrow> Poset" where
  "setAnchorBlock i p = p\<lparr>AnchorBlock := Some i\<rparr>"



definition GetSuperMajority :: "Poset \<Rightarrow> nat" where
  "GetSuperMajority p = Peers_GetSuperMajority (Participants p)"

definition GetTrustCount :: "Poset \<Rightarrow> nat" where
  "GetTrustCount p = Peers_GetTrustCount (Participants p)"

definition NextTopologicalIndex :: "Poset \<Rightarrow> int64 \<times> Poset" where
  "NextTopologicalIndex p = (topologicalIndex p, p\<lparr>topologicalIndex := add64 (topologicalIndex p) 1\<rparr>)"


section \<open>Loops\<close>

text \<open>
  A \<open>for ... range\<close> loop over a list: \<open>foldE\<close> threads an accumulator and stops
  at the first error; \<open>foldS\<close> threads the Poset and stops at the first error,
  keeping the state reached; \<open>foldR\<close> threads the Poset through steps that may
  end the process or not return.
\<close>

fun foldE :: "('a \<Rightarrow> 'b \<Rightarrow> error + 'a) \<Rightarrow> 'a \<Rightarrow> 'b list \<Rightarrow> error + 'a" where
  "foldE f a [] = Inr a"
| "foldE f a (x # xs) = (case f a x of Inl err \<Rightarrow> Inl err | Inr a' \<Rightarrow> foldE f a' xs)"

fun foldS :: "('b \<Rightarrow> Poset \<Rightarrow> error option \<times> Poset) \<Rightarrow> 'b list \<Rightarrow> Poset \<Rightarrow> error option \<times> Poset" where
  "foldS f [] p = (None, p)"
| "foldS f (x # xs) p =
     (case f x p of (Some err, p') \<Rightarrow> (Some err, p') | (None, p') \<Rightarrow> foldS f xs p')"

fun foldR :: "('b \<Rightarrow> Poset \<Rightarrow> unit run) \<Rightarrow> 'b list \<Rightarrow> Poset \<Rightarrow> unit run" where
  "foldR f [] p = Done () p"
| "foldR f (x # xs) p =
     (case f x p of Done u p' \<Rightarrow> foldR f xs p' | Exit err \<Rightarrow> Exit err | Timeout \<Rightarrow> Timeout)"

section \<open>Lamport timestamps\<close>

definition MinInt64 :: int64 where
  "MinInt64 = - (2 ^ 63)"

text \<open>
  \<open>lamportTimestamp\<close> and \<open>lamportTimestamp2\<close> call each other; the first argument
  bounds the depth of the recursion. The result is the pair the source returns,
  as a sum: the error, or the timestamp.
\<close>

fun lamportTimestamp :: "nat \<Rightarrow> EventHash \<Rightarrow> Poset \<Rightarrow> (error + int64) run"
  and lamportTimestamp2 :: "nat \<Rightarrow> EventHash \<Rightarrow> Poset \<Rightarrow> (error + int64) run" where
  "lamportTimestamp n x p =
     (case timestampCache p x of
        Some c \<Rightarrow> Done (Inr c) p
      | None \<Rightarrow>
          (case lamportTimestamp2 n x p of
             Done (Inl err) p' \<Rightarrow> Done (Inl err) p'
           | Done (Inr r) p' \<Rightarrow> Done (Inr r) (p'\<lparr>timestampCache := (timestampCache p')(x \<mapsto> r)\<rparr>)
           | Exit err \<Rightarrow> Exit err
           | Timeout \<Rightarrow> Timeout))"
| "lamportTimestamp2 0 x p = Timeout"
| "lamportTimestamp2 (Suc n) x p =
     (case RootsBySelfParent (Store p) of
        (bySelfParent, s1) \<Rightarrow>
          (let p1 = p\<lparr>Store := s1\<rparr> in
           case map_of bySelfParent x of
             Some r \<Rightarrow> Done (Inr (reLamportTimestamp (rootSelfParent r))) p1
           | None \<Rightarrow>
               (case GetEventBlock (Store p1) x of
                  Inl err \<Rightarrow> Done (Inl err) p1
                | Inr ex \<Rightarrow>
                    (case GetRoot (Store p1) (Creator ex) of
                       Inl err \<Rightarrow> Done (Inl err) p1
                     | Inr root \<Rightarrow>
                         (case (if SelfParent ex = reHash (rootSelfParent root)
                                then Done (Inr (reLamportTimestamp (rootSelfParent root))) p1
                                else lamportTimestamp n (SelfParent ex) p1) of
                            Exit err \<Rightarrow> Exit err
                          | Timeout \<Rightarrow> Timeout
                          | Done (Inl err) p2 \<Rightarrow> Done (Inl err) p2
                          | Done (Inr plt) p2 \<Rightarrow>
                              (if \<not> Zero (OtherParent ex) then
                                 (case (case GetEventBlock (Store p2) (OtherParent ex) of
                                          Inr known \<Rightarrow> lamportTimestamp n (OtherParent ex) p2
                                        | Inl err \<Rightarrow>
                                            (case Others root x of
                                               Some other \<Rightarrow>
                                                 (if OtherParent ex = reHash other
                                                  then Done (Inr (reLamportTimestamp other)) p2
                                                  else Done (Inr MinInt64) p2)
                                             | None \<Rightarrow> Done (Inr MinInt64) p2)) of
                                    Exit err \<Rightarrow> Exit err
                                  | Timeout \<Rightarrow> Timeout
                                  | Done (Inl err) p3 \<Rightarrow> Done (Inl err) p3
                                  | Done (Inr opLT) p3 \<Rightarrow>
                                      Done (Inr (add64 (if opLT > plt then opLT else plt) 1)) p3)
                               else Done (Inr (add64 plt 1)) p2))))))"

section \<open>Checks on the parents\<close>

definition checkSelfParent :: "Poset \<Rightarrow> Event \<Rightarrow> error option" where
  "checkSelfParent p event =
     (case LastEventFrom (Store p) (Creator event) of
        Inl err \<Rightarrow> Some err
      | Inr (creatorLastKnown, isRoot) \<Rightarrow>
          (if SelfParent event = creatorLastKnown then None
           else Some (Msg ''self-parent not last known event by creator'')))"

definition checkOtherParent :: "Poset \<Rightarrow> Event \<Rightarrow> error option" where
  "checkOtherParent p event =
     (if \<not> Zero (OtherParent event) then
        (case GetEventBlock (Store p) (OtherParent event) of
           Inr known \<Rightarrow> None
         | Inl err \<Rightarrow>
             (case GetRoot (Store p) (Creator event) of
                Inl err' \<Rightarrow> Some err'
              | Inr root \<Rightarrow>
                  (case Others root (Hash event) of
                     Some other \<Rightarrow>
                       (if OtherParent event = reHash other then None
                        else Some (Msg ''other-parent not known''))
                   | None \<Rightarrow> Some (Msg ''other-parent not known''))))
      else None)"

text \<open>
  Modelled from the spec: \<open>Event.SetWireInfo\<close> is not part of the sources; it
  stores its four arguments in the wire fields of the spec's data model
  (self-parent-index, other-parent-creator-id, other-parent-index, creator-id).
\<close>

definition setWireInfo :: "Poset \<Rightarrow> Event \<Rightarrow> error + Event" where
  "setWireInfo p event =
     (case ReadByPubKey (Participants p) (Creator event) of
        None \<Rightarrow> Inl (Msg ''creator not found'')
      | Some creator \<Rightarrow>
          (case GetEventBlock (Store p) (SelfParent event) of
             Inl err \<Rightarrow> Inl err
           | Inr selfParent \<Rightarrow>
               (case GetEventBlock (Store p) (OtherParent event) of
                  Inl err \<Rightarrow> Inl err
                | Inr otherParent \<Rightarrow>
                    (case ReadByPubKey (Participants p) (Creator otherParent) of
                       None \<Rightarrow> Inl (Msg ''creator not found'')
                     | Some otherParentCreator \<Rightarrow>
                         Inr (event\<lparr>SelfParentIndex := Index selfParent,
                                OtherParentCreatorID := ID otherParentCreator,
                                OtherParentIndex := Index otherParent,
                                CreatorID := ID creator\<rparr>)))))"

section \<open>Clotho checking\<close>

text \<open>
  The two counting maps of \<open>ClothoChecking\<close>, \<open>map[int64]map[EventHash]int64\<close>, as
  association lists of association lists.
\<close>

type_synonym CcMap = "(int64 \<times> (EventHash \<times> int64) list) list"

definition incCcTemp :: "CcMap \<Rightarrow> int64 \<Rightarrow> EventHash \<Rightarrow> CcMap" where
  "incCcTemp ccTemp frame hash =
     (let m = (case map_of ccTemp frame of None \<Rightarrow> [] | Some m' \<Rightarrow> m')
      in AList.update frame
           (AList.update hash (case map_of m hash of Some v \<Rightarrow> add64 v 1 | None \<Rightarrow> 1) m) ccTemp)"

definition updateCcList :: "CcMap \<Rightarrow> int64 \<Rightarrow> EventHash \<Rightarrow> int64 \<Rightarrow> CcMap" where
  "updateCcList ccList frame hash val =
     (let m = (case map_of ccList frame of None \<Rightarrow> [] | Some m' \<Rightarrow> m')
      in case map_of m hash of
           Some cval \<Rightarrow>
             (if cval < val then AList.update frame (AList.update hash val m) ccList else ccList)
         | None \<Rightarrow> AList.update frame (AList.update hash val m) ccList)"

text \<open>
  The three nested loops that read the root tables, innermost first. The in-memory
  store's \<open>GetClothoCheck\<close> fails with \<open>KeyNotFound\<close> only, on which the loops
  continue. Calls of the logger are not modelled, here and below.
\<close>

definition ccLevel3 :: "Store \<Rightarrow> CcMap \<Rightarrow> EventHash \<times> int64 \<Rightarrow> error + CcMap" where
  "ccLevel3 s ccTemp kv =
     (case kv of (rrkey, rrval) \<Rightarrow>
        (case GetClothoCheck s rrval rrkey of
           Inl err \<Rightarrow>
             (if isDBKeyNotFound err then Inr ccTemp
              else Inl (Wrap ''ClothoChecking(): GetClothoCheck(rrval, rrkey)'' err))
         | Inr found \<Rightarrow> Inr (incCcTemp ccTemp rrval rrkey)))"

definition ccLevel2 :: "env \<Rightarrow> Store \<Rightarrow> CcMap \<Rightarrow> EventHash \<times> int64 \<Rightarrow> error + CcMap" where
  "ccLevel2 env s ccTemp kv =
     (case kv of (rkey, rval) \<Rightarrow>
        (case GetClothoCheck s rval rkey of
           Inl err \<Rightarrow>
             (if isDBKeyNotFound err then Inr ccTemp
              else Inl (Wrap ''ClothoChecking(): GetClothoCheck(rval, rkey)'' err))
         | Inr prevPrevRoot \<Rightarrow>
             (case GetEventBlock s prevPrevRoot of
                Inl err \<Rightarrow> Inl (Wrap ''GetEventBlock(prevPrevRoot)'' err)
              | Inr prevPrevRootEvent \<Rightarrow>
                  (case GetRootTable env prevPrevRootEvent of
                     Inl err \<Rightarrow> Inl (Wrap ''ClothoChecking() prevPrevRootEvent.GetRootTable()'' err)
                   | Inr prevPrevRootTable \<Rightarrow> foldE (ccLevel3 s) ccTemp prevPrevRootTable))))"

definition ccLevel1 :: "env \<Rightarrow> Store \<Rightarrow> CcMap \<Rightarrow> EventHash \<times> int64 \<Rightarrow> error + CcMap" where
  "ccLevel1 env s ccList kv =
     (case kv of (key, val) \<Rightarrow>
        (case GetClothoCheck s val key of
           Inl err \<Rightarrow>
             (if isDBKeyNotFound err then Inr ccList
              else Inl (Wrap ''ClothoChecking(): GetClothoCheck()'' err))
         | Inr prevRoot \<Rightarrow>
             (case GetEventBlock s prevRoot of
                Inl err \<Rightarrow> Inl (Wrap ''GetEventBlock(prevRoot)'' err)
              | Inr prevRootEvent \<Rightarrow>
                  (case GetRootTable env prevRootEvent of
                     Inl err \<Rightarrow> Inl (Wrap ''ClothoChecking() prevRootEvent.GetRootTable()'' err)
                   | Inr prevRootTable \<Rightarrow>
                       (case foldE (ccLevel2 env s) [] prevRootTable of
                          Inl err \<Rightarrow> Inl err
                        | Inr ccTemp \<Rightarrow>
                            Inr (foldl (\<lambda>acc (frame, eventHashMap).
                                     foldl (\<lambda>acc' (hash, v). updateCcList acc' frame hash v)
                                       acc eventHashMap)
                                   ccList ccTemp))))))"

text \<open>
  The body of the last loop: a root counted by a supermajority becomes a clotho,
  and the new root \<open>e\<close> votes its own lamport time for it.
\<close>

definition ccPromote :: "env \<Rightarrow> Event \<Rightarrow> int64 \<Rightarrow> EventHash \<times> int64 \<Rightarrow> Poset \<Rightarrow> error option \<times> Poset" where
  "ccPromote env e frame kv p =
     (case kv of (key, val) \<Rightarrow>
        (if uint64 val \<ge> GetSuperMajority p then
           (case GetClothoCheck (Store p) frame key of
              Inl err \<Rightarrow> (Some (Wrap ''ClothoChecking(): GetClothoCheck(frame, key)'' err), p)
            | Inr rootKey \<Rightarrow>
                (case GetEventBlock (Store p) rootKey of
                   Inl err \<Rightarrow> (Some (Wrap ''ClothoChecking() GetEventBlock(key)'' err), p)
                 | Inr root0 \<Rightarrow>
                     (if \<not> Clotho root0 then
                        (case SetEvent env (Store p) (root0\<lparr>Clotho := True\<rparr>) of
                           Inl err \<Rightarrow> (Some (Wrap ''ClothoChecking() SetEvent()'' err), p)
                         | Inr s \<Rightarrow>
                             (None, p\<lparr>Store := AddTimeTable env s (Hash e) (Hash root0)
                                                 (LamportTimestamp e)\<rparr>))
                      else (None, p\<lparr>Store := AddTimeTable env (Store p) (Hash e) (Hash root0)
                                                 (LamportTimestamp e)\<rparr>))))
         else (None, p)))"

definition ClothoChecking :: "env \<Rightarrow> Event \<Rightarrow> Poset \<Rightarrow> error option \<times> Poset" where
  "ClothoChecking env e p =
     (case GetRootTable env e of
        Inl err \<Rightarrow> (Some (Wrap ''ClothoChecking() e.GetRootTable()'' err), p)
      | Inr rootTable \<Rightarrow>
          (case foldE (ccLevel1 env (Store p)) [] rootTable of
             Inl err \<Rightarrow> (Some err, p)
           | Inr ccList \<Rightarrow>
               foldS (\<lambda>fm. case fm of (frame, eventHashMap) \<Rightarrow> foldS (ccPromote env e frame) eventHashMap)
                 ccList p))"

section \<open>Atropos time selection\<close>

text \<open>
  Modelled from the spec: \<open>CountMap\<close> is not part of the sources. The spec has the
  engine aggregate the time-table votes; the loops of \<open>AtroposTimeSelection\<close> read
  the map as a count per clotho hash and voted time, which \<open>Inc\<close> raises by one.
\<close>

type_synonym CountMap = "(EventHash \<times> (int64 \<times> nat) list) list"

definition Inc :: "CountMap \<Rightarrow> EventHash \<Rightarrow> int64 \<Rightarrow> CountMap" where
  "Inc countMap key val =
     (let m = (case map_of countMap key of None \<Rightarrow> [] | Some m' \<Rightarrow> m')
      in AList.update key
           (AList.update val (case map_of m val of Some c \<Rightarrow> addU64 c 1 | None \<Rightarrow> 1) m) countMap)"

definition accountEvent :: "env \<Rightarrow> Event \<Rightarrow> Poset \<Rightarrow> Poset" where
  "accountEvent env ev p =
     (let p1 = setLastConsensusRound (Frame ev) p;
          p2 = (if IsLoaded env ev
                then p1\<lparr>pendingLoadedEvents := sub64 (pendingLoadedEvents p1) 1\<rparr> else p1);
          p3 = p2\<lparr>Store := AddConsensusEvent (Store p2) ev\<rparr>
      in p3\<lparr>ConsensusTransactions :=
              addU64 (ConsensusTransactions p3) (length (Transactions ev))\<rparr>)"

text \<open>
  \<open>AssignAtroposTime2\<close> treats the self-parent and the other-parent by the same
  three statements; \<open>visitParent\<close> is that block for a parent found in the store,
  with the recursive call as \<open>assign\<close>. It returns the parent as the local variable
  holds it afterwards. A failing \<open>SetEvent\<close> ends the process (\<open>logger.Fatal\<close>).
\<close>

definition visitParent ::
  "env \<Rightarrow> (Event \<Rightarrow> int64 \<Rightarrow> Poset \<Rightarrow> int64 run) \<Rightarrow> Event \<Rightarrow> int64 \<Rightarrow> Poset \<Rightarrow> Event run" where
  "visitParent env assign parent0 frame p =
     (let follow = (FrameReceived parent0 = 0);
          parent = (if follow then parent0\<lparr>FrameReceived := frame\<rparr> else parent0)
      in if AtroposTimestamp parent = 0 then
           (case assign parent frame p of
              Exit err \<Rightarrow> Exit err
            | Timeout \<Rightarrow> Timeout
            | Done atroposTime p1 \<Rightarrow>
                (let parent' = parent\<lparr>AtroposTimestamp := atroposTime\<rparr>;
                     p2 = accountEvent env parent' p1
                 in case SetEvent env (Store p2) parent' of
                      Inl err \<Rightarrow> Exit err
                    | Inr s \<Rightarrow> Done parent' (p2\<lparr>Store := s\<rparr>)))
         else if follow then
           (case SetEvent env (Store p) parent of
              Inl err \<Rightarrow> Exit err
            | Inr s \<Rightarrow> Done parent (p\<lparr>Store := s\<rparr>))
         else Done parent p)"

primrec AssignAtroposTime2 :: "env \<Rightarrow> nat \<Rightarrow> Event \<Rightarrow> int64 \<Rightarrow> Poset \<Rightarrow> int64 run" where
  "AssignAtroposTime2 env 0 = (\<lambda>e frame p. Timeout)"
| "AssignAtroposTime2 env (Suc n) = (\<lambda>e frame p.
     (case (case GetEventBlock (Store p) (SelfParent e) of
              Inl selfErr \<Rightarrow> Done () p
            | Inr selfParent \<Rightarrow>
                (case visitParent env (AssignAtroposTime2 env n) selfParent frame p of
                   Exit err \<Rightarrow> Exit err
                 | Timeout \<Rightarrow> Timeout
                 | Done selfParent' p1 \<Rightarrow> Done () p1)) of
        Exit err \<Rightarrow> Exit err
      | Timeout \<Rightarrow> Timeout
      | Done u p1 \<Rightarrow>
          (case GetEventBlock (Store p1) (OtherParent e) of
             Inl otherErr \<Rightarrow> Done (LamportTimestamp e) p1
           | Inr otherParent \<Rightarrow>
               (case visitParent env (AssignAtroposTime2 env n) otherParent frame p1 of
                  Exit err \<Rightarrow> Exit err
                | Timeout \<Rightarrow> Timeout
                | Done otherParent' p2 \<Rightarrow> Done (LamportTimestamp otherParent') p2))))"

text \<open>The two loops that pick the vote: the coin round and the regular round.\<close>

definition coinVote :: "(int64 \<times> nat) list \<Rightarrow> nat \<times> int64" where
  "coinVote val =
     foldl (\<lambda>(maxVal, maxInd) (time, count).
              if maxVal = 0 then (count, time)
              else if time < maxInd then (maxVal, time)
              else (maxVal, maxInd))
       (0, 0) val"

definition majorityVote :: "(int64 \<times> nat) list \<Rightarrow> nat \<times> int64" where
  "majorityVote val =
     foldl (\<lambda>(maxVal, maxInd) (time, count).
              if maxVal = 0 \<or> count > maxVal then (count, time)
              else if count = maxVal \<and> time < maxInd then (maxVal, time)
              else (maxVal, maxInd))
       (0, 0) val"

text \<open>The body of the loop over the count map, for the clotho hash \<open>key\<close>.\<close>

definition atroposStep ::
  "env \<Rightarrow> nat \<Rightarrow> Event \<Rightarrow> EventHash \<times> (int64 \<times> nat) list \<Rightarrow> Poset \<Rightarrow> unit run" where
  "atroposStep env fuel e kv p =
     (case kv of (key, val) \<Rightarrow>
        (case GetEventBlock (Store p) key of
           Inl err \<Rightarrow> Done () p
         | Inr clotho \<Rightarrow>
             (if Atropos clotho then Done () p
              else if sub64 (Frame e) (Frame clotho) smod 4 = 0 then
                (case coinVote val of (maxVal, maxInd) \<Rightarrow>
                   Done () (p\<lparr>Store := AddTimeTable env (Store p) (Hash e) key maxInd\<rparr>))
              else
                (case majorityVote val of (maxVal, maxInd) \<Rightarrow>
                   (if maxVal \<ge> GetSuperMajority p then
                      (if \<not> Atropos clotho then
                         (let clotho1 = clotho\<lparr>Atropos := True, FrameReceived := Frame clotho\<rparr>;
                              p1 = (if AtroposTimestamp clotho1 = 0
                                    then accountEvent env clotho1 p else p)
                          in case AssignAtroposTime2 env fuel clotho1 (Frame clotho1) p1 of
                               Exit err \<Rightarrow> Exit err
                             | Timeout \<Rightarrow> Timeout
                             | Done atroposTime p2 \<Rightarrow>
                                 (case SetEvent env (Store p2)
                                         (clotho1\<lparr>AtroposTimestamp := atroposTime\<rparr>) of
                                    Inl err \<Rightarrow> Exit err
                                  | Inr s \<Rightarrow> Done () (p2\<lparr>Store := s\<rparr>)))
                       else Done () p)
                    else Done () (p\<lparr>Store := AddTimeTable env (Store p) (Hash e) key maxInd\<rparr>))))))"

definition countVotes :: "env \<Rightarrow> Store \<Rightarrow> CountMap \<Rightarrow> EventHash \<times> int64 \<Rightarrow> error + CountMap" where
  "countVotes env s countMap kv =
     (case kv of (prevKey, prevVal) \<Rightarrow>
        (case GetTimeTable env s prevKey of
           Inl err \<Rightarrow> Inl err
         | Inr timeTable \<Rightarrow>
             Inr (foldl (\<lambda>cm (key, val). Inc cm key val) countMap timeTable)))"

definition AtroposTimeSelection :: "env \<Rightarrow> nat \<Rightarrow> Event \<Rightarrow> Poset \<Rightarrow> error option run" where
  "AtroposTimeSelection env fuel e p =
     (case GetRootTable env e of
        Inl err \<Rightarrow> Done (Some err) p
      | Inr rootTable \<Rightarrow>
          (case foldE (countVotes env (Store p)) [] rootTable of
             Inl err \<Rightarrow> Done (Some err) p
           | Inr countMap \<Rightarrow>
               (case foldR (atroposStep env fuel e) countMap p of
                  Exit err \<Rightarrow> Exit err
                | Timeout \<Rightarrow> Timeout
                | Done u p' \<Rightarrow> Done None p')))"

section \<open>InsertEvent\<close>

text \<open>
  The frame assignment of \<open>InsertEvent\<close> (the \<open>if\<close> over the parents' frames): the
  values of the variables \<open>flagTable\<close>, \<open>rootTable\<close>, \<open>Root\<close> and \<open>Frame\<close> after it, or
  the error it returns. A parent that is not in the store is the zero event. The
  nil \<open>rootTable\<close> is the empty table.
\<close>

definition frameAssignment ::
  "env \<Rightarrow> Poset \<Rightarrow> Event \<Rightarrow> Event \<Rightarrow> error + (FlagTable \<times> FlagTable \<times> bool \<times> int64)" where
  "frameAssignment env p parentEvent otherParentEvent =
     (if Frame parentEvent = Frame otherParentEvent then
        (case GetFlagTable env otherParentEvent of
           Inl err \<Rightarrow> Inl (Wrap ''AddSelfEventBlock() otherParentEvent.GetFlagTable()'' err)
         | Inr otherFlagTable \<Rightarrow>
             (case MergeFlagTable env parentEvent otherFlagTable (Frame parentEvent) of
                Inl err \<Rightarrow> Inl (Wrap ''AddSelfEventBlock() parentEvent.MergeFlagTable()'' err)
              | Inr flagTable \<Rightarrow>
                  (if length flagTable \<ge> GetSuperMajority p
                   then Inr (NewFlagTable, flagTable, True, add64 (Frame parentEvent) 1)
                   else Inr (flagTable, [], False, Frame parentEvent))))
      else if Frame parentEvent > Frame otherParentEvent then
        (case GetFlagTable env parentEvent of
           Inl err \<Rightarrow> Inl (Wrap ''parentEvent.GetFlagTable()'' err)
         | Inr flagTable \<Rightarrow> Inr (flagTable, [], False, Frame parentEvent))
      else
        (case GetClothoCreatorCheck (Store p) (Frame otherParentEvent) (CreatorID otherParentEvent) of
           Inl err \<Rightarrow> Inl (Wrap ''GetClothoCheck(otherParentEvent.Frame, otherHead)'' err)
         | Inr otherRoot \<Rightarrow>
             (let otherRootEvent = eventOrZero (Store p) otherRoot
              in case GetRootTable env otherRootEvent of
                   Inl err \<Rightarrow> Inl (Wrap ''otherRootEvent.GetFlagTable()'' err)
                 | Inr otherRootTable \<Rightarrow>
                     (case MergeFlagTable env parentEvent otherRootTable
                             (sub64 (Frame otherParentEvent) 1) of
                        Inl err \<Rightarrow>
                          Inl (Wrap ''AddSelfEventBlock() parentEvent.MergeFlagTable(otherRootTable)'' err)
                      | Inr rootTable \<Rightarrow>
                          (case GetFlagTable env otherParentEvent of
                             Inl err \<Rightarrow> Inl (Wrap ''otherParentEvent.GetFlagTable()'' err)
                           | Inr flagTable \<Rightarrow>
                               Inr (flagTable, rootTable, True, Frame otherParentEvent))))))"

text \<open>
  The fields \<open>InsertEvent\<close> assigns to the event before it stores it: the frame
  data, and the lamport timestamp when the event came without one.
\<close>

definition assignFields ::
  "env \<Rightarrow> Event \<Rightarrow> Event \<Rightarrow> Event \<Rightarrow> FlagTable \<times> FlagTable \<times> bool \<times> int64 \<Rightarrow> Event" where
  "assignFields env event parentEvent otherParentEvent r =
     (case r of (flagTable0, rootTable, isRoot, frame) \<Rightarrow>
        (let flagTable = (if isRoot then AList.update (Hash event) frame flagTable0 else flagTable0);
             event1 = event\<lparr>Root := isRoot, Frame := frame,
                        FlagTableBytes := Marshal env flagTable,
                        RootTableBytes := Marshal env rootTable\<rparr>
         in if LamportTimestamp event1 = LamportTimestampNIL env then
              (let plt = LamportTimestamp parentEvent;
                   opLT = LamportTimestamp otherParentEvent
               in event1\<lparr>LamportTimestamp := add64 (if opLT > plt then opLT else plt) 1\<rparr>)
            else event1))"

text \<open>
  What \<open>InsertEvent\<close> does for a new root once the event is stored, and its last
  statements, which queue the event.
\<close>

definition insertRoot :: "env \<Rightarrow> nat \<Rightarrow> Event \<Rightarrow> Poset \<Rightarrow> error option run" where
  "insertRoot env fuel event p =
     (let p1 = p\<lparr>Store := AddClothoCheck (Store p) (Frame event) (CreatorID event) (Hash event)\<rparr>
      in case ClothoChecking env event p1 of
           (Some err, p2) \<Rightarrow> Done (Some (Wrap ''CheckClotho(newHead)'' err)) p2
         | (None, p2) \<Rightarrow>
             (case AtroposTimeSelection env fuel event p2 of
                Exit err \<Rightarrow> Exit err
              | Timeout \<Rightarrow> Timeout
              | Done (Some err) p3 \<Rightarrow> Done (Some (Wrap ''AtroposTimeSelection(newHead)'' err)) p3
              | Done None p3 \<Rightarrow> Done None p3))"

definition enqueueEvent :: "env \<Rightarrow> Event \<Rightarrow> Poset \<Rightarrow> Poset" where
  "enqueueEvent env event p =
     (let p1 = p\<lparr>UndeterminedEvents := UndeterminedEvents p @ [Hash event]\<rparr>;
          p2 = (if IsLoaded env event
                then p1\<lparr>pendingLoadedEvents := add64 (pendingLoadedEvents p1) 1\<rparr> else p1)
      in p2\<lparr>SigPool := SigPool p2 @ BlockSignatures event\<rparr>)"

text \<open>
  The second half of \<open>InsertEvent\<close>, from the topological index on, for the
  event \<open>event1\<close> with its frame data and lamport timestamp assigned.
  \<open>SetRoundCreated\<close> and \<open>AddClothoCheck\<close> of the in-memory store do not fail.
\<close>

definition storeAssigned :: "env \<Rightarrow> nat \<Rightarrow> Event \<Rightarrow> bool \<Rightarrow> Poset \<Rightarrow> error option run" where
  "storeAssigned env fuel event1 setWire p =
     (case NextTopologicalIndex p of (ti, p1) \<Rightarrow>
     (let event2 = event1\<lparr>TopologicalIndex := ti\<rparr>
      in case (if setWire then setWireInfo p1 event2 else Inr event2) of
           Inl err \<Rightarrow> Done (Some (Wrap ''SetWireInfo'' err)) p1
         | Inr event3 \<Rightarrow>
     (case SetEvent env (Store p1) event3 of
        Inl err \<Rightarrow> Done (Some (Wrap ''SetEvent'' err)) p1
      | Inr s2 \<Rightarrow>
     (let p2 = p1\<lparr>Store := SetRoundCreated s2 (Frame event3) \<lparr>Queued = False, roundEvents = []\<rparr>\<rparr>
      in case (if Root event3 then insertRoot env fuel event3 p2 else Done None p2) of
           Exit err \<Rightarrow> Exit err
         | Timeout \<Rightarrow> Timeout
         | Done (Some err) p3 \<Rightarrow> Done (Some err) p3
         | Done None p3 \<Rightarrow> Done None (enqueueEvent env event3 p3)))))"

definition InsertEvent :: "env \<Rightarrow> nat \<Rightarrow> Event \<Rightarrow> bool \<Rightarrow> Poset \<Rightarrow> error option run" where
  "InsertEvent env fuel event setWire p =
     (case Verify env event of
        (False, Some err) \<Rightarrow> Done (Some err) p
      | (False, None) \<Rightarrow> Done (Some (Msg ''invalid Event signature'')) p
      | (True, verr) \<Rightarrow>
     (case checkSelfParent p event of
        Some err \<Rightarrow> Done (Some (Wrap ''CheckSelfParent'' err)) p
      | None \<Rightarrow>
     (case checkOtherParent p event of
        Some err \<Rightarrow> Done (Some (Wrap ''CheckOtherParent'' err)) p
      | None \<Rightarrow>
     (let parentEvent = eventOrZero (Store p) (SelfParent event);
          otherParentEvent = eventOrZero (Store p) (OtherParent event)
      in case frameAssignment env p parentEvent otherParentEvent of
           Inl err \<Rightarrow> Done (Some err) p
         | Inr r \<Rightarrow>
             storeAssigned env fuel (assignFields env event parentEvent otherParentEvent r)
               setWire p))))"

section \<open>Well-formed stores\<close>

text \<open>
  The store enters every event under its own hash (\<open>SetEvent\<close>), so in a store
  built by the code the event found under a hash has that hash:
  \<open>storeConsistent\<close>. \<open>core\<close> forgets the fields that clotho checking and
  atropos time selection write to events already stored (\<open>Clotho\<close>, \<open>Atropos\<close>,
  \<open>AtroposTimestamp\<close>, \<open>FrameReceived\<close>); \<open>evolves s s'\<close> says that \<open>s'\<close> holds the
  same events as \<open>s\<close> up to these fields, under the same hashes and with the same
  participant-event lists.
\<close>

definition storeConsistent :: "Store \<Rightarrow> bool" where
  "storeConsistent s = (\<forall>h ev. eventCache s h = Some ev \<longrightarrow> Hash ev = h)"

definition core :: "Event \<Rightarrow> Event" where
  "core ev = ev\<lparr>Clotho := False, Atropos := False, AtroposTimestamp := 0, FrameReceived := 0\<rparr>"

definition evolves :: "Store \<Rightarrow> Store \<Rightarrow> bool" where
  "evolves s s' =
     (storeConsistent s'
      \<and> participantEventsCache s' = participantEventsCache s
      \<and> (\<forall>h. eventCache s h = None \<longrightarrow> eventCache s' h = None)
      \<and> (\<forall>h ev. eventCache s h = Some ev \<longrightarrow>
             (\<exists>ev'. eventCache s' h = Some ev' \<and> core ev' = core ev)))"

section \<open>The signature pool\<close>

text \<open>\<open>fmt.Sprintf("0x%X", bs.Validator)\<close>: two upper-case hex digits per byte.\<close>

definition hexDigit :: "nat \<Rightarrow> char" where
  "hexDigit d = ''0123456789ABCDEF'' ! (d mod 16)"

definition hexByte :: "nat \<Rightarrow> string" where
  "hexByte b = [hexDigit (b div 16), hexDigit b]"

definition validatorHex :: "bytes \<Rightarrow> string" where
  "validatorHex v = ''0x'' @ concat (map hexByte v)"

text \<open>
  Modelled from the spec: \<open>Block.SetSignature\<close> is not part of the sources. The spec
  has the signature attached to the block's signature map, a map from validator
  key to signature.
\<close>

definition SetSignature :: "Block \<Rightarrow> BlockSignature \<Rightarrow> Block" where
  "SetSignature block bs =
     block\<lparr>Signatures := AList.update (validatorHex (Validator bs)) (bsSignature bs) (Signatures block)\<rparr>"

text \<open>The test \<open>p.AnchorBlock == nil || i > *p.AnchorBlock\<close>.\<close>

definition aboveAnchor :: "int64 \<Rightarrow> Poset \<Rightarrow> bool" where
  "aboveAnchor i p = (case AnchorBlock p of None \<Rightarrow> True | Some a \<Rightarrow> i > a)"

text \<open>
  The body of the loop of \<open>ProcessSigPool\<close> for the signature \<open>bs\<close> at position \<open>i\<close>
  of the pool. The result is the error the method returns at once, if any, the
  positions marked as processed, and the Poset. \<open>SetBlock\<close> of the in-memory store
  does not fail.
\<close>

definition processSignature ::
  "env \<Rightarrow> nat \<Rightarrow> BlockSignature \<Rightarrow> int64 list \<Rightarrow> Poset \<Rightarrow> error option \<times> int64 list \<times> Poset" where
  "processSignature env i bs processedSignatures p =
     (case ReadByPubKey (Participants p) (validatorHex (Validator bs)) of
        None \<Rightarrow> (None, processedSignatures, p)
      | Some peer \<Rightarrow>
          (if aboveAnchor (bsIndex bs) p then
             (case GetBlock (Store p) (bsIndex bs) of
                Inl err \<Rightarrow> (None, processedSignatures, p)
              | Inr block \<Rightarrow>
                  (case BlockVerify env block bs of
                     (valid, Some err) \<Rightarrow> (Some err, processedSignatures, p)
                   | (False, None) \<Rightarrow> (None, processedSignatures, p)
                   | (True, None) \<Rightarrow>
                       (let block' = SetSignature block bs;
                            p1 = p\<lparr>Store := SetBlock (Store p) block'\<rparr>;
                            p2 = (if length (Signatures block') > GetTrustCount p1
                                     \<and> aboveAnchor (blockIndex block') p1
                                  then setAnchorBlock (blockIndex block') p1 else p1)
                        in (None, processedSignatures @ [int i], p2))))
           else (None, processedSignatures @ [int i], p)))"

fun sigPoolLoop ::
  "env \<Rightarrow> (nat \<times> BlockSignature) list \<Rightarrow> int64 list \<Rightarrow> Poset \<Rightarrow> error option \<times> int64 list \<times> Poset" where
  "sigPoolLoop env [] processedSignatures p = (None, processedSignatures, p)"
| "sigPoolLoop env ((i, bs) # rest) processedSignatures p =
     (case processSignature env i bs processedSignatures p of
        (Some err, processedSignatures', p') \<Rightarrow> (Some err, processedSignatures', p')
      | (None, processedSignatures', p') \<Rightarrow> sigPoolLoop env rest processedSignatures' p')"

text \<open>
  \<open>removeProcessedSignatures\<close> keeps the signatures whose block index is not among
  the marked keys (the keys are positions in the pool, as the source has it).
\<close>

definition removeProcessedSignatures :: "int64 list \<Rightarrow> Poset \<Rightarrow> Poset" where
  "removeProcessedSignatures processedSignatures p =
     p\<lparr>SigPool := filter (\<lambda>bs. bsIndex bs \<notin> set processedSignatures) (SigPool p)\<rparr>"

definition ProcessSigPool :: "env \<Rightarrow> Poset \<Rightarrow> error option \<times> Poset" where
  "ProcessSigPool env p =
     (case sigPoolLoop env (zip [0..<length (SigPool p)] (SigPool p)) [] p of
        (err, processedSignatures, p') \<Rightarrow> (err, removeProcessedSignatures processedSignatures p'))"

section \<open>Making a frame\<close>

text \<open>
  Modelled from the spec: the comparator \<open>ByLamportTimestamp.Less\<close> is not part of
  the sources. The spec orders the events of a frame by atropos timestamp, then
  lamport timestamp, then flag-table hash, then signature XOR, all ascending;
  \<open>sortKey\<close> is that key and \<open>ByLamportTimestamp_Less\<close> the comparison of two events
  by it, component after component.
\<close>

definition sortKey :: "env \<Rightarrow> Event \<Rightarrow> int64 \<times> int64 \<times> nat \<times> nat" where
  "sortKey env e = (AtroposTimestamp e, LamportTimestamp e, FlagTableHash env e, SignatureXOR env e)"

definition ByLamportTimestamp_Less :: "env \<Rightarrow> Event \<Rightarrow> Event \<Rightarrow> bool" where
  "ByLamportTimestamp_Less env a b =
     (if AtroposTimestamp a \<noteq> AtroposTimestamp b then AtroposTimestamp a < AtroposTimestamp b
      else if LamportTimestamp a \<noteq> LamportTimestamp b then LamportTimestamp a < LamportTimestamp b
      else if FlagTableHash env a \<noteq> FlagTableHash env b then FlagTableHash env a < FlagTableHash env b
      else SignatureXOR env a < SignatureXOR env b)"

text \<open>
  \<open>sort.Stable\<close> of the standard library, as a stable insertion sort: an element
  moves behind the elements that are less than it, and behind no other.
\<close>

fun insertStable :: "('a \<Rightarrow> 'a \<Rightarrow> bool) \<Rightarrow> 'a \<Rightarrow> 'a list \<Rightarrow> 'a list" where
  "insertStable lt x [] = [x]"
| "insertStable lt x (y # ys) =
     (if lt y x then y # insertStable lt x ys else x # y # ys)"

definition sortStable :: "('a \<Rightarrow> 'a \<Rightarrow> bool) \<Rightarrow> 'a list \<Rightarrow> 'a list" where
  "sortStable lt xs = foldr (insertStable lt) xs []"

text \<open>
  The first statements of \<open>MakeFrame\<close>: the events of the received round are read
  from the store, the first one that is missing being an error, and sorted.
\<close>

fun collectEvents :: "Store \<Rightarrow> EventHash list \<Rightarrow> error + Event list" where
  "collectEvents s [] = Inr []"
| "collectEvents s (eh # rest) =
     (case GetEventBlock s eh of
        Inl err \<Rightarrow> Inl err
      | Inr e \<Rightarrow> (case collectEvents s rest of Inl err \<Rightarrow> Inl err | Inr es \<Rightarrow> Inr (e # es)))"

definition MakeFrame_events :: "env \<Rightarrow> Poset \<Rightarrow> int64 \<Rightarrow> error + Event list" where
  "MakeFrame_events env p roundReceived =
     (case GetRoundReceived (Store p) roundReceived of
        Inl err \<Rightarrow> Inl err
      | Inr round \<Rightarrow>
          (case collectEvents (Store p) (Rounds round) of
             Inl err \<Rightarrow> Inl err
           | Inr events \<Rightarrow> Inr (sortStable (ByLamportTimestamp_Less env) events)))"

section \<open>An example environment\<close>

text \<open>
  A concrete instance of the parameters, used to run the model on examples: every
  event signature verifies; a block signature is valid when its text is
  \<open>''valid''\<close>; a table is encoded as the list of its keys and values (a value \<open>v\<close>
  as \<open>2v\<close>, or \<open>-2v - 1\<close> when negative); \<open>MergeFlagTable\<close> is the union the spec
  describes, the entries of the event's own table first; the participant-event
  cache refuses nothing.
\<close>

definition encodeInt :: "int \<Rightarrow> nat" where
  "encodeInt v = (if 0 \<le> v then 2 * nat v else 2 * nat (- v) - 1)"

definition decodeInt :: "nat \<Rightarrow> int" where
  "decodeInt n = (if even n then int (n div 2) else - int ((n + 1) div 2))"

definition encodeTable :: "FlagTable \<Rightarrow> bytes" where
  "encodeTable ft = concat (map (\<lambda>(h, v). [h, encodeInt v]) ft)"

fun decodeTable :: "bytes \<Rightarrow> error + FlagTable" where
  "decodeTable [] = Inr []"
| "decodeTable [x] = Inl (Msg ''odd length'')"
| "decodeTable (h # v # rest) =
     (case decodeTable rest of Inl err \<Rightarrow> Inl err | Inr ft \<Rightarrow> Inr ((h, decodeInt v) # ft))"

definition unionTable :: "FlagTable \<Rightarrow> FlagTable \<Rightarrow> FlagTable" where
  "unionTable src dst = foldl (\<lambda>m (k, v). if map_of m k = None then m @ [(k, v)] else m) src dst"

definition unionMerge :: "Event \<Rightarrow> FlagTable \<Rightarrow> int64 \<Rightarrow> error + FlagTable" where
  "unionMerge e dst frame =
     (case decodeTable (FlagTableBytes e) of Inl err \<Rightarrow> Inl err | Inr src \<Rightarrow> Inr (unionTable src dst))"

definition testEnv :: env where
  "testEnv = \<lparr>Verify = (\<lambda>e. (True, None)),
     IsLoaded = (\<lambda>e. Transactions e \<noteq> []),
     Marshal = encodeTable,
     Unmarshal = decodeTable,
     MergeFlagTable = unionMerge,
     LamportTimestampNIL = - 1,
     PESetError = (\<lambda>entries hash index. None),
     BlockVerify = (\<lambda>block bs. (bsSignature bs = ''valid'', None)),
     FlagTableHash = (\<lambda>e. sum_list (FlagTableBytes e)),
     SignatureXOR = (\<lambda>e. length (Signature e))\<rparr>"

text \<open>Participants 1 to \<open>n\<close>, the key of participant \<open>i\<close> being the one byte \<open>i\<close>.\<close>

definition testPeer :: "nat \<Rightarrow> Peer" where
  "testPeer i = \<lparr>ID = i, NetAddr = [], PubKeyHex = validatorHex [i]\<rparr>"

definition testPeers :: "nat list \<Rightarrow> Peers" where
  "testPeers ids = \<lparr>Sorted = map testPeer ids\<rparr>"

definition testPoset :: "nat list \<Rightarrow> Poset" where
  "testPoset ids = NewPoset (testPeers ids) (NewInmemStore (\<lambda>i. 1000 + i) (testPeers ids))"



text \<open>
  \<open>testEvent h c i sp op\<close> is an event with hash \<open>h\<close> by participant \<open>c\<close> at index
  \<open>i\<close> with the given parents, as it arrives from the wire: without a lamport
  timestamp and with empty tables.
\<close>

definition testEvent :: "EventHash \<Rightarrow> nat \<Rightarrow> int64 \<Rightarrow> EventHash \<Rightarrow> EventHash \<Rightarrow> Event" where
  "testEvent h c i sp op =
     zeroEvent\<lparr>Hash := h, Creator := validatorHex [c], CreatorID := c, Index := i,
       SelfParent := sp, OtherParent := op, LamportTimestamp := - 1\<rparr>"


definition resultOf :: "'a run \<Rightarrow> 'a option" where
  "resultOf r = (case r of Done x p \<Rightarrow> Some x | Exit err \<Rightarrow> None | Timeout \<Rightarrow> None)"

text \<open>The event stored under a hash after a run, if the run returned.\<close>

definition storedAfter :: "'a run \<Rightarrow> EventHash \<Rightarrow> Event option" where
  "storedAfter r h = (case r of Done x p \<Rightarrow> eventCache (Store p) h | Exit err \<Rightarrow> None | Timeout \<Rightarrow> None)"

text \<open>
  A store that holds the events \<open>evs\<close>, each entered under its hash and in its
  creator's list, over the base roots of the participants \<open>ids\<close>.
\<close>

definition putEvent :: "Event \<Rightarrow> Store \<Rightarrow> Store" where
  "putEvent ev s =
     s\<lparr>eventCache := (eventCache s)(Hash ev \<mapsto> ev),
       participantEventsCache := (participantEventsCache s)
         (Creator ev := participantEventsCache s (Creator ev) @ [(Index ev, Hash ev)])\<rparr>"

definition posetWith :: "nat list \<Rightarrow> Event list \<Rightarrow> Poset" where
  "posetWith ids evs =
     (testPoset ids)\<lparr>Store := foldl (\<lambda>s ev. putEvent ev s) (Store (testPoset ids)) evs\<rparr>"

text \<open>Example states: empty time tables for some hashes, and creator checks.\<close>

definition withTimeTables :: "EventHash list \<Rightarrow> Poset \<Rightarrow> Poset" where
  "withTimeTables hs p =
     p\<lparr>Store := (Store p)\<lparr>timeTableCache :=
        (\<lambda>h. if h \<in> set hs then Some (encodeTable []) else timeTableCache (Store p) h)\<rparr>\<rparr>"

definition withCreatorCheck :: "int64 \<Rightarrow> nat \<Rightarrow> EventHash \<Rightarrow> Poset \<Rightarrow> Poset" where
  "withCreatorCheck frame creatorID h p =
     p\<lparr>Store := (Store p)\<lparr>clothoCheckCreatorCache :=
        (clothoCheckCreatorCache (Store p))((frame, creatorID) \<mapsto> h)\<rparr>\<rparr>"

text \<open>
  Two participants. Event 10 of participant 1 and event 20 of participant 2 are
  in frame 0 and have seen the roots 5 and 6; event 30 of participant 1 has them
  as its parents.
\<close>

definition ev10 :: Event where
  "ev10 = (testEvent 10 1 0 1001 0)\<lparr>LamportTimestamp := 0, FlagTableBytes := encodeTable [(5, 0)]\<rparr>"

definition ev20 :: Event where
  "ev20 = (testEvent 20 2 0 1002 0)\<lparr>LamportTimestamp := 0, FlagTableBytes := encodeTable [(6, 0)]\<rparr>"

definition ev30 :: Event where
  "ev30 = testEvent 30 1 1 10 20"

definition equalFramesState :: Poset where
  "equalFramesState = withTimeTables [5, 6] (posetWith [1, 2] [ev10, ev20])"

text \<open>
  The same with participant 2 ahead: its event 21 is its root of frame 0, with
  root table \<open>{8: 0}\<close>, and its event 22 on top of it is its root of frame 1, with
  root table \<open>{7: 0}\<close> and flag table \<open>{22: 1}\<close>; event 31 of participant 1 has the
  parents 10 and 22.
\<close>

definition ev21 :: Event where
  "ev21 = (testEvent 21 2 0 1002 0)\<lparr>LamportTimestamp := 0, Root := True,
     RootTableBytes := encodeTable [(8, 0)], FlagTableBytes := encodeTable [(21, 0)]\<rparr>"

definition ev22 :: Event where
  "ev22 = (testEvent 22 2 1 21 0)\<lparr>LamportTimestamp := 1, Frame := 1, Root := True,
     RootTableBytes := encodeTable [(7, 0)], FlagTableBytes := encodeTable [(22, 1)]\<rparr>"

definition ev31 :: Event where
  "ev31 = testEvent 31 1 1 10 22"

definition otherAheadState :: Poset where
  "otherAheadState =
     withCreatorCheck 0 2 21 (withCreatorCheck 1 2 22
       (withTimeTables [5, 7] (posetWith [1, 2] [ev10, ev21, ev22])))"

text \<open>
  One participant. \<open>leafEvent\<close> is its first event, on top of its base root
  (hash 1001); \<open>afterLeaf\<close> is the state once it is inserted. \<open>forkEvent\<close> has the
  same creator, index and self-parent as \<open>leafEvent\<close>; \<open>sameIndexEvent\<close> has the
  same creator and index, and \<open>leafEvent\<close> as its self-parent; the self-parent of
  \<open>strayEvent\<close> is unknown.
\<close>

definition leafEvent :: Event where
  "leafEvent = testEvent 11 1 0 1001 0"

definition afterLeaf :: Poset where
  "afterLeaf = (case InsertEvent testEnv 1 leafEvent False (testPoset [1]) of
                  Done res p \<Rightarrow> p | Exit err \<Rightarrow> testPoset [1] | Timeout \<Rightarrow> testPoset [1])"

definition forkEvent :: Event where
  "forkEvent = (testEvent 12 1 0 1001 0)\<lparr>Transactions := [[7]]\<rparr>"

definition sameIndexEvent :: Event where
  "sameIndexEvent = testEvent 12 1 0 11 0"


text \<open>The lamport timestamp \<open>lamportTimestamp\<close> computes in the state after a run.\<close>

definition lamportAfter :: "'a run \<Rightarrow> nat \<Rightarrow> EventHash \<Rightarrow> (error + int64) option" where
  "lamportAfter r n h =
     (case r of Done x p \<Rightarrow> resultOf (lamportTimestamp n h p) | Exit err \<Rightarrow> None | Timeout \<Rightarrow> None)"






text \<open>
  A received round 3 with three events of equal atropos timestamp: event 61 with
  lamport timestamp 2, and the events 62 and 63 with lamport timestamp 1 and flag
  tables of hash 9 and 4.
\<close>

definition ev61 :: Event where
  "ev61 = (testEvent 61 1 0 1001 0)\<lparr>AtroposTimestamp := 7, LamportTimestamp := 2\<rparr>"

definition ev62 :: Event where
  "ev62 = (testEvent 62 1 1 61 0)\<lparr>AtroposTimestamp := 7, LamportTimestamp := 1,
     FlagTableBytes := [9]\<rparr>"

definition ev63 :: Event where
  "ev63 = (testEvent 63 1 2 62 0)\<lparr>AtroposTimestamp := 7, LamportTimestamp := 1,
     FlagTableBytes := [4]\<rparr>"

definition frameState :: Poset where
  "frameState =
     (posetWith [1] [ev61, ev62, ev63])\<lparr>Store := (Store (posetWith [1] [ev61, ev62, ev63]))
        \<lparr>roundReceivedCache := [3 \<mapsto> \<lparr>Rounds = [61, 62, 63]\<rparr>]\<rparr>\<rparr>"




section \<open>Properties\<close>

subsection \<open>Quorum thresholds\<close>

lemma length_nPeers: "length (Sorted (nPeers n)) = n"
  by (simp add: nPeers_def)

lemma GetSuperMajority_nPeers: "GetSuperMajority (NewPoset (nPeers n) st) = 2 * n div 3 + 1"
  by (simp add: GetSuperMajority_def NewPoset_def Peers_GetSuperMajority_def superMajorityOf_def
      length_nPeers)

lemma GetTrustCount_nPeers: "GetTrustCount (NewPoset (nPeers n) st) = n div 3"
  by (simp add: GetTrustCount_def NewPoset_def Peers_GetTrustCount_def trustCountOf_def
      length_nPeers)

text \<open>
  C9, as stated, at two participants: the supermajority the spec's table expects is
  2, the formula of section 4.3 gives 1 and the formula of section 2 gives 3, so the
  table is not consistent with either formula.
\<close>

theorem C9_formulas_disagree_at_2:
  "GetSuperMajority (NewPoset (nPeers 2) (NewInmemStore id (nPeers 2))) = 2
   \<and> superMajority_sec43 2 \<noteq> GetSuperMajority (NewPoset (nPeers 2) (NewInmemStore id (nPeers 2)))
   \<and> superMajority_sec2 2 \<noteq> GetSuperMajority (NewPoset (nPeers 2) (NewInmemStore id (nPeers 2)))"
  by (simp add: GetSuperMajority_nPeers superMajority_sec43_def superMajority_sec2_def)

text \<open>
  C9, amended: for 1 to 10 participants GetSuperMajority returns
  1, 2, 3, 3, 4, 5, 5, 6, 7, 7 and GetTrustCount returns 0, 0, 1, 1, 1, 2, 2, 2, 3, 3;
  the supermajority is the floor of 2n/3, plus 1, and the trust count is the floor
  of n/3.
\<close>

theorem C9_thresholds:
  "map (\<lambda>n. GetSuperMajority (NewPoset (nPeers n) st)) [1, 2, 3, 4, 5, 6, 7, 8, 9, 10]
     = [1, 2, 3, 3, 4, 5, 5, 6, 7, 7]
   \<and> map (\<lambda>n. GetTrustCount (NewPoset (nPeers n) st)) [1, 2, 3, 4, 5, 6, 7, 8, 9, 10]
     = [0, 0, 1, 1, 1, 2, 2, 2, 3, 3]
   \<and> GetSuperMajority (NewPoset (nPeers n) st) = 2 * n div 3 + 1
   \<and> GetTrustCount (NewPoset (nPeers n) st) = n div 3"
  by (simp add: GetSuperMajority_nPeers GetTrustCount_nPeers)

subsection \<open>The last consensus round\<close>


subsection \<open>The anchor block\<close>



subsection \<open>What clotho checking and atropos selection leave unchanged\<close>

text \<open>
  In a consistent store, every write that \<open>ClothoChecking\<close>, \<open>AtroposTimeSelection\<close>
  and \<open>AssignAtroposTime2\<close> make to the event cache replaces a stored event by a
  copy that differs in the four decision fields only.
\<close>

lemma core_fields:
  "Hash (core a) = Hash a" "Root (core a) = Root a" "Frame (core a) = Frame a"
  "FlagTableBytes (core a) = FlagTableBytes a" "RootTableBytes (core a) = RootTableBytes a"
  "LamportTimestamp (core a) = LamportTimestamp a" "Creator (core a) = Creator a"
  "Index (core a) = Index a" "SelfParent (core a) = SelfParent a"
  "OtherParent (core a) = OtherParent a"
  by (simp_all add: core_def)

lemma core_eq_fields:
  assumes "core a = core b"
  shows "Hash a = Hash b" "Root a = Root b" "Frame a = Frame b"
    "FlagTableBytes a = FlagTableBytes b" "RootTableBytes a = RootTableBytes b"
    "LamportTimestamp a = LamportTimestamp b" "Creator a = Creator b" "Index a = Index b"
    "SelfParent a = SelfParent b" "OtherParent a = OtherParent b"
  using assms core_fields by metis+

lemma core_updates [simp]:
  "core (a\<lparr>Clotho := c\<rparr>) = core a"
  "core (a\<lparr>Atropos := b\<rparr>) = core a"
  "core (a\<lparr>AtroposTimestamp := t\<rparr>) = core a"
  "core (a\<lparr>FrameReceived := f\<rparr>) = core a"
  by (simp_all add: core_def)

lemma evolves_refl: "storeConsistent s \<Longrightarrow> evolves s s"
  by (simp add: evolves_def)

lemma evolves_consistent: "evolves s s' \<Longrightarrow> storeConsistent s'"
  by (simp add: evolves_def)

lemma evolves_lookup:
  assumes "evolves s s'" and "eventCache s h = Some ev"
  obtains ev' where "eventCache s' h = Some ev'" and "core ev' = core ev"
  using assms unfolding evolves_def by blast

lemma evolves_lookup_None:
  assumes "evolves s s'" and "eventCache s h = None"
  shows "eventCache s' h = None"
  using assms unfolding evolves_def by blast

lemma evolves_trans:
  assumes "evolves a b" and "evolves b c"
  shows "evolves a c"
  unfolding evolves_def
proof (intro conjI allI impI)
  show "storeConsistent c" using assms(2) by (simp add: evolves_def)
  show "participantEventsCache c = participantEventsCache a"
    using assms by (simp add: evolves_def)
  show "eventCache c h = None" if "eventCache a h = None" for h
    using that assms evolves_lookup_None by blast
  show "\<exists>ev'. eventCache c h = Some ev' \<and> core ev' = core ev"
    if "eventCache a h = Some ev" for h ev
  proof -
    from assms(1) that obtain ev' where b: "eventCache b h = Some ev'" "core ev' = core ev"
      by (rule evolves_lookup)
    from assms(2) b(1) obtain ev'' where "eventCache c h = Some ev''" "core ev'' = core ev'"
      by (rule evolves_lookup)
    with b show ?thesis by simp
  qed
qed

lemma evolves_same_events:
  assumes "evolves s s'" and "eventCache s'' = eventCache s'"
    and "participantEventsCache s'' = participantEventsCache s'"
  shows "evolves s s''"
  using assms by (simp add: evolves_def storeConsistent_def)

lemma SetEvent_known:
  assumes "storeConsistent s" and "eventCache s h = Some ev" and "core ev' = core ev"
  shows "SetEvent env s ev' = Inr (s\<lparr>eventCache := (eventCache s)(h \<mapsto> ev')\<rparr>)"
proof -
  have "Hash ev' = h" using assms core_eq_fields(1) by (metis storeConsistent_def)
  with assms(2) show ?thesis by (simp add: SetEvent_def GetEventBlock_def)
qed

lemma evolves_update_known:
  assumes "storeConsistent s" and "eventCache s h = Some ev" and "core ev' = core ev"
  shows "evolves s (s\<lparr>eventCache := (eventCache s)(h \<mapsto> ev')\<rparr>)"
proof -
  have "Hash ev' = h" using assms core_eq_fields(1) by (metis storeConsistent_def)
  with assms show ?thesis
    by (auto simp: evolves_def storeConsistent_def split: option.splits)
qed

lemma SetEvent_evolves:
  assumes "storeConsistent s" and "eventCache s h = Some ev" and "core ev' = core ev"
  obtains s' where "SetEvent env s ev' = Inr s'" and "evolves s s'"
  using SetEvent_known [OF assms] evolves_update_known [OF assms] by blast


lemma Store_accountEvent [simp]:
  "eventCache (Store (accountEvent env ev p)) = eventCache (Store p)"
  "participantEventsCache (Store (accountEvent env ev p)) = participantEventsCache (Store p)"
  by (simp_all add: accountEvent_def Let_def AddConsensusEvent_def setLastConsensusRound_def)

lemma Store_AddTimeTable [simp]:
  "eventCache (AddTimeTable env s a b t) = eventCache s"
  "participantEventsCache (AddTimeTable env s a b t) = participantEventsCache s"
  by (simp_all add: AddTimeTable_def Let_def)

lemma Store_AddClothoCheck [simp]:
  "eventCache (AddClothoCheck s f c h) = eventCache s"
  "participantEventsCache (AddClothoCheck s f c h) = participantEventsCache s"
  by (simp_all add: AddClothoCheck_def)

lemma Store_SetRoundCreated [simp]:
  "eventCache (SetRoundCreated s f r) = eventCache s"
  "participantEventsCache (SetRoundCreated s f r) = participantEventsCache s"
  by (simp_all add: SetRoundCreated_def)

lemma storeConsistent_same:
  "eventCache s' = eventCache s \<Longrightarrow> storeConsistent s' = storeConsistent s"
  by (simp add: storeConsistent_def)

lemma evolves_accountEvent:
  "evolves s (Store p) \<Longrightarrow> evolves s (Store (accountEvent env ev p))"
  by (erule evolves_same_events) simp_all

lemma visitParent_evolves:
  assumes IH: "\<And>parent frame p r p'. storeConsistent (Store p) \<Longrightarrow>
      assign parent frame p = Done r p' \<Longrightarrow> evolves (Store p) (Store p')"
    and cons: "storeConsistent (Store p)"
    and known: "eventCache (Store p) h = Some parent0"
    and run: "visitParent env assign parent0 frame p = Done parent' p'"
  shows "evolves (Store p) (Store p') \<and> core parent' = core parent0"
proof -
  define parent where
    "parent = (if FrameReceived parent0 = 0 then parent0\<lparr>FrameReceived := frame\<rparr> else parent0)"
  have cp: "core parent = core parent0" by (simp add: parent_def)
  show ?thesis
  proof (cases "AtroposTimestamp parent = 0")
    case True
    with run obtain atroposTime p1 where a: "assign parent frame p = Done atroposTime p1"
      by (auto simp: visitParent_def Let_def parent_def split: run.splits if_splits)
    let ?parent' = "parent\<lparr>AtroposTimestamp := atroposTime\<rparr>"
    let ?p2 = "accountEvent env ?parent' p1"
    from IH [OF cons a] have e1: "evolves (Store p) (Store p1)" .
    then have e2: "evolves (Store p) (Store ?p2)" by (rule evolves_accountEvent)
    from e2 known obtain ev2 where k2: "eventCache (Store ?p2) h = Some ev2" "core ev2 = core parent0"
      by (rule evolves_lookup)
    have c2: "storeConsistent (Store ?p2)" using e2 by (rule evolves_consistent)
    have cc: "core ?parent' = core ev2" using cp k2 by simp
    from SetEvent_known [OF c2 k2(1) cc]
    have se: "SetEvent env (Store ?p2) ?parent' = Inr ((Store ?p2)\<lparr>eventCache := (eventCache (Store ?p2))(h \<mapsto> ?parent')\<rparr>)" .
    from evolves_update_known [OF c2 k2(1) cc]
    have e3: "evolves (Store ?p2) ((Store ?p2)\<lparr>eventCache := (eventCache (Store ?p2))(h \<mapsto> ?parent')\<rparr>)" .
    from run True a se have
      "p' = ?p2\<lparr>Store := (Store ?p2)\<lparr>eventCache := (eventCache (Store ?p2))(h \<mapsto> ?parent')\<rparr>\<rparr>"
      "parent' = ?parent'"
      by (auto simp: visitParent_def Let_def parent_def split: if_splits)
    with evolves_trans [OF e2 e3] cp show ?thesis by simp
  next
    case False
    show ?thesis
    proof (cases "FrameReceived parent0 = 0")
      case True
      have cc: "core parent = core parent0" by (rule cp)
      from SetEvent_known [OF cons known cc]
      have se: "SetEvent env (Store p) parent = Inr ((Store p)\<lparr>eventCache := (eventCache (Store p))(h \<mapsto> parent)\<rparr>)" .
      from run False True se have
        "p' = p\<lparr>Store := (Store p)\<lparr>eventCache := (eventCache (Store p))(h \<mapsto> parent)\<rparr>\<rparr>"
        "parent' = parent"
        by (auto simp: visitParent_def Let_def parent_def split: if_splits)
      with evolves_update_known [OF cons known cc] cp show ?thesis by simp
    next
      case F2: False
      with run False have "p' = p" "parent' = parent0"
        by (simp_all add: visitParent_def Let_def parent_def split: if_splits)
      with cons show ?thesis by (simp add: evolves_refl)
    qed
  qed
qed

lemma AssignAtroposTime2_evolves:
  "storeConsistent (Store p) \<Longrightarrow> AssignAtroposTime2 env n e frame p = Done r p' \<Longrightarrow>
     evolves (Store p) (Store p')
     \<and> r = (case eventCache (Store p) (OtherParent e) of
                Some op \<Rightarrow> LamportTimestamp op | None \<Rightarrow> LamportTimestamp e)"
proof (induction n arbitrary: p e frame r p')
  case 0
  then show ?case by simp
next
  case (Suc n)
  have IH: "\<And>parent frame p r p'. storeConsistent (Store p) \<Longrightarrow>
      AssignAtroposTime2 env n parent frame p = Done r p' \<Longrightarrow> evolves (Store p) (Store p')"
    using Suc.IH by blast
  obtain p1 where self: "(case GetEventBlock (Store p) (SelfParent e) of
              Inl selfErr \<Rightarrow> Done () p
            | Inr selfParent \<Rightarrow>
                (case visitParent env (AssignAtroposTime2 env n) selfParent frame p of
                   Exit err \<Rightarrow> Exit err
                 | Timeout \<Rightarrow> Timeout
                 | Done selfParent' p1 \<Rightarrow> Done () p1)) = Done () p1"
    using Suc.prems(2) by (auto split: run.splits)
  have e1: "evolves (Store p) (Store p1)"
  proof (cases "eventCache (Store p) (SelfParent e)")
    case None
    with self have "p1 = p" by (simp add: GetEventBlock_def)
    with Suc.prems(1) show ?thesis by (simp add: evolves_refl)
  next
    case (Some sp)
    with self obtain sp' where "visitParent env (AssignAtroposTime2 env n) sp frame p = Done sp' p1"
      by (auto simp: GetEventBlock_def split: run.splits)
    from visitParent_evolves [OF IH Suc.prems(1) Some this] show ?thesis by simp
  qed
  then have c1: "storeConsistent (Store p1)" by (rule evolves_consistent)
  from Suc.prems(2) self have other:
    "(case GetEventBlock (Store p1) (OtherParent e) of
             Inl otherErr \<Rightarrow> Done (LamportTimestamp e) p1
           | Inr otherParent \<Rightarrow>
               (case visitParent env (AssignAtroposTime2 env n) otherParent frame p1 of
                  Exit err \<Rightarrow> Exit err
                | Timeout \<Rightarrow> Timeout
                | Done otherParent' p2 \<Rightarrow> Done (LamportTimestamp otherParent') p2)) = Done r p'"
    by simp
  show ?case
  proof (cases "eventCache (Store p) (OtherParent e)")
    case None
    with e1 have "eventCache (Store p1) (OtherParent e) = None" by (simp add: evolves_lookup_None)
    with other have "p' = p1" "r = LamportTimestamp e" by (simp_all add: GetEventBlock_def)
    with e1 None show ?thesis by simp
  next
    case (Some op)
    with e1 obtain op1 where k: "eventCache (Store p1) (OtherParent e) = Some op1" "core op1 = core op"
      by (rule evolves_lookup)
    with other obtain op' where v: "visitParent env (AssignAtroposTime2 env n) op1 frame p1 = Done op' p'"
      and r: "r = LamportTimestamp op'"
      by (auto simp: GetEventBlock_def split: run.splits)
    from visitParent_evolves [OF IH c1 k(1) v]
    have "evolves (Store p1) (Store p')" "core op' = core op1" by simp_all
    with e1 k(2) r Some show ?thesis
      using evolves_trans core_eq_fields(6) by (metis option.simps(5))
  qed
qed


lemma atroposStep_promote:
  assumes cons: "storeConsistent (Store p)"
    and known: "eventCache (Store p) key = Some clotho"
    and na: "\<not> Atropos clotho"
    and nc: "sub64 (Frame e) (Frame clotho) smod 4 \<noteq> 0"
    and sm: "GetSuperMajority p \<le> fst (majorityVote val)"
    and run: "atroposStep env fuel e (key, val) p = Done u p'"
  shows "evolves (Store p) (Store p')
     \<and> eventCache (Store p') key =
         Some (clotho\<lparr>Atropos := True, FrameReceived := Frame clotho,
                 AtroposTimestamp :=
                   (case eventCache (Store p) (OtherParent clotho) of
                      Some op \<Rightarrow> LamportTimestamp op | None \<Rightarrow> LamportTimestamp clotho)\<rparr>)"
proof -
  let ?c1 = "clotho\<lparr>Atropos := True, FrameReceived := Frame clotho\<rparr>"
  let ?p1 = "if AtroposTimestamp ?c1 = 0 then accountEvent env ?c1 p else p"
  have e0: "evolves (Store p) (Store ?p1)"
    using cons by (simp add: evolves_refl evolves_accountEvent)
  then have c1: "storeConsistent (Store ?p1)" by (rule evolves_consistent)
  have ec: "eventCache (Store ?p1) = eventCache (Store p)" by simp
  from run known na nc sm obtain t p2 where
    a: "AssignAtroposTime2 env fuel ?c1 (Frame ?c1) ?p1 = Done t p2"
    and se: "SetEvent env (Store p2) (?c1\<lparr>AtroposTimestamp := t\<rparr>) = Inr (Store p')"
    by (auto simp: atroposStep_def GetEventBlock_def Let_def GetSuperMajority_def
        split: prod.splits run.splits sum.splits if_splits)
  from AssignAtroposTime2_evolves [OF c1 a]
  have e1: "evolves (Store ?p1) (Store p2)"
    and t: "t = (case eventCache (Store p) (OtherParent clotho) of
                   Some op \<Rightarrow> LamportTimestamp op | None \<Rightarrow> LamportTimestamp clotho)"
    by (simp_all add: ec split: option.splits)
  from evolves_trans [OF e0 e1] have e2: "evolves (Store p) (Store p2)" .
  then have c2: "storeConsistent (Store p2)" by (rule evolves_consistent)
  from e2 known obtain c2' where k2: "eventCache (Store p2) key = Some c2'" "core c2' = core clotho"
    by (rule evolves_lookup)
  have cc: "core (?c1\<lparr>AtroposTimestamp := t\<rparr>) = core c2'" using k2 by simp
  from SetEvent_known [OF c2 k2(1) cc] se
  have s': "Store p' = (Store p2)\<lparr>eventCache := (eventCache (Store p2))(key \<mapsto> ?c1\<lparr>AtroposTimestamp := t\<rparr>)\<rparr>"
    by simp
  from evolves_update_known [OF c2 k2(1) cc] s' have "evolves (Store p2) (Store p')" by simp
  with e2 have "evolves (Store p) (Store p')" by (rule evolves_trans)
  moreover from s' t have "eventCache (Store p') key =
         Some (clotho\<lparr>Atropos := True, FrameReceived := Frame clotho,
                 AtroposTimestamp :=
                   (case eventCache (Store p) (OtherParent clotho) of
                      Some op \<Rightarrow> LamportTimestamp op | None \<Rightarrow> LamportTimestamp clotho)\<rparr>)"
    by simp
  ultimately show ?thesis by simp
qed

lemma atroposStep_evolves:
  assumes cons: "storeConsistent (Store p)" and run: "atroposStep env fuel e kv p = Done u p'"
  shows "evolves (Store p) (Store p')"
proof -
  obtain key val where kv: "kv = (key, val)" by (cases kv)
  show ?thesis
  proof (cases "eventCache (Store p) key")
    case None
    with run kv cons show ?thesis
      by (simp add: atroposStep_def GetEventBlock_def evolves_refl)
  next
    case (Some clotho)
    show ?thesis
    proof (cases "\<not> Atropos clotho \<and> sub64 (Frame e) (Frame clotho) smod 4 \<noteq> 0
                  \<and> GetSuperMajority p \<le> fst (majorityVote val)")
      case True
      with atroposStep_promote [OF cons Some _ _ _ run [unfolded kv]] show ?thesis by simp
    next
      case False
      with run kv Some have "eventCache (Store p') = eventCache (Store p)
          \<and> participantEventsCache (Store p') = participantEventsCache (Store p)"
        by (auto simp: atroposStep_def GetEventBlock_def split: prod.splits if_splits)
      with evolves_refl [OF cons] show ?thesis by (simp add: evolves_same_events)
    qed
  qed
qed

lemma foldR_evolves:
  assumes step: "\<And>x p u p'. storeConsistent (Store p) \<Longrightarrow> f x p = Done u p' \<Longrightarrow>
      evolves (Store p) (Store p')"
  shows "storeConsistent (Store p) \<Longrightarrow> foldR f xs p = Done u p' \<Longrightarrow>
      evolves (Store p) (Store p')"
proof (induction xs arbitrary: p)
  case Nil
  then show ?case by (simp add: evolves_refl)
next
  case (Cons x xs)
  from Cons.prems(2) obtain u1 p1 where f: "f x p = Done u1 p1" and r: "foldR f xs p1 = Done u p'"
    by (auto split: run.splits)
  from step [OF Cons.prems(1) f] have e1: "evolves (Store p) (Store p1)" .
  from Cons.IH [OF evolves_consistent [OF e1] r] e1 show ?case
    using evolves_trans by blast
qed

lemma AtroposTimeSelection_evolves:
  assumes "storeConsistent (Store p)" and "AtroposTimeSelection env fuel e p = Done r p'"
  shows "evolves (Store p) (Store p')"
proof (cases r)
  case None
  with assms(2) obtain countMap u where fr: "foldR (atroposStep env fuel e) countMap p = Done u p'"
    by (auto simp: AtroposTimeSelection_def split: sum.splits run.splits)
  show ?thesis
  proof (rule foldR_evolves [where f = "atroposStep env fuel e" and xs = countMap])
    show "\<And>x p u p'. storeConsistent (Store p) \<Longrightarrow> atroposStep env fuel e x p = Done u p' \<Longrightarrow>
        evolves (Store p) (Store p')"
      by (rule atroposStep_evolves)
  qed (fact assms(1), fact fr)
next
  case (Some err)
  with assms(2) have "p' = p"
    by (auto simp: AtroposTimeSelection_def split: sum.splits run.splits)
  with assms(1) show ?thesis by (simp add: evolves_refl)
qed

lemma ccPromote_evolves:
  assumes cons: "storeConsistent (Store p)" and run: "ccPromote env e frame kv p = (r, p')"
  shows "evolves (Store p) (Store p')"
proof -
  obtain key val where kv: "kv = (key, val)" by (cases kv)
  show ?thesis
  proof (cases "\<exists>rootKey root0. GetSuperMajority p \<le> uint64 val
        \<and> GetClothoCheck (Store p) frame key = Inr rootKey
        \<and> eventCache (Store p) rootKey = Some root0 \<and> \<not> Clotho root0")
    case True
    then obtain rootKey root0 where sm: "GetSuperMajority p \<le> uint64 val"
      and g: "GetClothoCheck (Store p) frame key = Inr rootKey"
      and k: "eventCache (Store p) rootKey = Some root0" and nc: "\<not> Clotho root0" by blast
    have cc: "core (root0\<lparr>Clotho := True\<rparr>) = core root0" by simp
    from SetEvent_known [OF cons k cc] run kv sm g k nc
    have "eventCache (Store p') = (eventCache (Store p))(rootKey \<mapsto> root0\<lparr>Clotho := True\<rparr>)
        \<and> participantEventsCache (Store p') = participantEventsCache (Store p)"
      by (auto simp: ccPromote_def GetEventBlock_def)
    with evolves_update_known [OF cons k cc] show ?thesis
      by (auto intro: evolves_same_events)
  next
    case False
    with run kv have "eventCache (Store p') = eventCache (Store p)
            \<and> participantEventsCache (Store p') = participantEventsCache (Store p)"
      by (auto simp: ccPromote_def GetEventBlock_def split: if_splits sum.splits option.splits)
    with evolves_refl [OF cons] show ?thesis by (simp add: evolves_same_events)
  qed
qed

lemma foldS_evolves:
  assumes step: "\<And>x p r p'. storeConsistent (Store p) \<Longrightarrow> f x p = (r, p') \<Longrightarrow>
      evolves (Store p) (Store p')"
  shows "storeConsistent (Store p) \<Longrightarrow> foldS f xs p = (r, p') \<Longrightarrow>
      evolves (Store p) (Store p')"
proof (induction xs arbitrary: p)
  case Nil
  then show ?case by (simp add: evolves_refl)
next
  case (Cons x xs)
  obtain r1 p1 where f: "f x p = (r1, p1)" by (cases "f x p")
  from step [OF Cons.prems(1) f] have e1: "evolves (Store p) (Store p1)" .
  show ?case
  proof (cases r1)
    case None
    with f Cons.prems(2) have "foldS f xs p1 = (r, p')" by simp
    from Cons.IH [OF evolves_consistent [OF e1] this] e1 show ?thesis
      using evolves_trans by blast
  next
    case (Some err)
    with f Cons.prems(2) have "p' = p1" by simp
    with e1 show ?thesis by simp
  qed
qed

lemma ClothoChecking_evolves:
  assumes cons: "storeConsistent (Store p)" and run: "ClothoChecking env e p = (r, p')"
  shows "evolves (Store p) (Store p')"
proof (cases "\<exists>rootTable ccList. GetRootTable env e = Inr rootTable
          \<and> foldE (ccLevel1 env (Store p)) [] rootTable = Inr ccList")
  case True
  then obtain rootTable ccList where "GetRootTable env e = Inr rootTable"
    "foldE (ccLevel1 env (Store p)) [] rootTable = Inr ccList" by blast
  with run have fr: "foldS (\<lambda>fm. case fm of (frame, eventHashMap) \<Rightarrow>
      foldS (ccPromote env e frame) eventHashMap) ccList p = (r, p')"
    by (simp add: ClothoChecking_def)
  show ?thesis
  proof (rule foldS_evolves [OF _ cons fr])
    fix x :: "int64 \<times> (EventHash \<times> int64) list" and p r p'
    assume c: "storeConsistent (Store p)"
      and "(case x of (frame, eventHashMap) \<Rightarrow> foldS (ccPromote env e frame) eventHashMap) p = (r, p')"
    then have inner: "foldS (ccPromote env e (fst x)) (snd x) p = (r, p')"
      by (simp add: case_prod_beta)
    show "evolves (Store p) (Store p')"
    proof (rule foldS_evolves [where f = "ccPromote env e (fst x)" and xs = "snd x"])
      show "\<And>y q r q'. storeConsistent (Store q) \<Longrightarrow> ccPromote env e (fst x) y q = (r, q') \<Longrightarrow>
          evolves (Store q) (Store q')"
        by (rule ccPromote_evolves)
    qed (fact c, fact inner)
  qed
next
  case False
  with run have "p' = p" by (auto simp: ClothoChecking_def split: sum.splits)
  with cons show ?thesis by (simp add: evolves_refl)
qed

lemma insertRoot_evolves:
  assumes cons: "storeConsistent (Store p)" and run: "insertRoot env fuel event p = Done r p'"
  shows "evolves (Store p) (Store p')"
proof -
  let ?p1 = "p\<lparr>Store := AddClothoCheck (Store p) (Frame event) (CreatorID event) (Hash event)\<rparr>"
  have e1: "evolves (Store p) (Store ?p1)"
    using evolves_refl [OF cons] by (rule evolves_same_events) simp_all
  obtain r2 p2 where cc: "ClothoChecking env event ?p1 = (r2, p2)"
    by (cases "ClothoChecking env event ?p1")
  from ClothoChecking_evolves [OF evolves_consistent [OF e1] cc]
  have e2: "evolves (Store ?p1) (Store p2)" .
  show ?thesis
  proof (cases r2)
    case (Some err)
    with run cc have "p' = p2" by (simp add: insertRoot_def Let_def)
    with e1 e2 show ?thesis using evolves_trans by blast
  next
    case None
    with run cc obtain r3 where "AtroposTimeSelection env fuel event p2 = Done r3 p'"
      by (auto simp: insertRoot_def Let_def split: run.splits option.splits)
    from AtroposTimeSelection_evolves [OF evolves_consistent [OF e2] this] e1 e2
    show ?thesis using evolves_trans by blast
  qed
qed


subsection \<open>What InsertEvent stores\<close>

lemma GetLast_append:
  "participantEventsCache s c = xs @ [(i, h)] \<Longrightarrow> GetLast s c = Inr h"
  by (cases xs) (simp_all add: GetLast_def)

lemma SetEvent_result:
  assumes "SetEvent env s ev = Inr s'" and "storeConsistent s"
  shows "storeConsistent s' \<and> eventCache s' (Hash ev) = Some ev
     \<and> (eventCache s (Hash ev) = None \<longrightarrow> GetLast s' (Creator ev) = Inr (Hash ev))"
  using assms
  by (auto simp: SetEvent_def GetEventBlock_def addParticipantEvent_def storeConsistent_def
      isDBKeyNotFound_def GetLast_append
      split: option.splits sum.splits if_splits)

lemma GetLast_evolves: "evolves s s' \<Longrightarrow> GetLast s' c = GetLast s c"
  by (simp add: evolves_def GetLast_def)

lemma setWireInfo_fields:
  assumes "setWireInfo p ev = Inr ev'"
  shows "Hash ev' = Hash ev" "Root ev' = Root ev" "Frame ev' = Frame ev"
    "FlagTableBytes ev' = FlagTableBytes ev" "RootTableBytes ev' = RootTableBytes ev"
    "LamportTimestamp ev' = LamportTimestamp ev" "Creator ev' = Creator ev"
  using assms by (auto simp: setWireInfo_def split: option.splits sum.splits)

lemma assignFields_fields:
  "Hash (assignFields env event pe ope r) = Hash event"
  "Creator (assignFields env event pe ope r) = Creator event"
  by (auto simp: assignFields_def Let_def split: prod.splits)

lemma Store_enqueueEvent [simp]: "Store (enqueueEvent env ev p) = Store p"
  by (simp add: enqueueEvent_def Let_def)

lemma Store_NextTopologicalIndex [simp]: "Store (snd (NextTopologicalIndex p)) = Store p"
  by (simp add: NextTopologicalIndex_def)

text \<open>What a successful InsertEvent leaves in the store.\<close>

lemma InsertEvent_cases:
  assumes "InsertEvent env fuel event w p = Done res p'"
  obtains (early) err where "res = Some err" and "p' = p"
  | (assigned) r where
      "frameAssignment env p (eventOrZero (Store p) (SelfParent event))
        (eventOrZero (Store p) (OtherParent event)) = Inr r"
      and "fst (Verify env event)" and "checkSelfParent p event = None"
      and "checkOtherParent p event = None"
      and "storeAssigned env fuel
            (assignFields env event (eventOrZero (Store p) (SelfParent event))
              (eventOrZero (Store p) (OtherParent event)) r) w p = Done res p'"
  using assms
  by (auto simp: InsertEvent_def Let_def split: prod.splits bool.splits option.splits sum.splits)

lemma storeAssigned_cases:
  assumes "storeAssigned env fuel ev1 w p = Done res p'"
  obtains (wire) err where "res = Some (Wrap ''SetWireInfo'' err)"
      and "p' = snd (NextTopologicalIndex p)"
  | (store) err where "res = Some (Wrap ''SetEvent'' err)"
      and "p' = snd (NextTopologicalIndex p)"
  | (stored) ev3 s2 p3 where
      "(if w then setWireInfo (snd (NextTopologicalIndex p))
                    (ev1\<lparr>TopologicalIndex := fst (NextTopologicalIndex p)\<rparr>)
        else Inr (ev1\<lparr>TopologicalIndex := fst (NextTopologicalIndex p)\<rparr>)) = Inr ev3"
      and "SetEvent env (Store p) ev3 = Inr s2"
      and "(if Root ev3
            then insertRoot env fuel ev3
              ((snd (NextTopologicalIndex p))\<lparr>Store := SetRoundCreated s2 (Frame ev3)
                  \<lparr>Queued = False, roundEvents = []\<rparr>\<rparr>)
            else Done None
              ((snd (NextTopologicalIndex p))\<lparr>Store := SetRoundCreated s2 (Frame ev3)
                  \<lparr>Queued = False, roundEvents = []\<rparr>\<rparr>)) = Done res p3"
      and "p' = (case res of None \<Rightarrow> enqueueEvent env ev3 p3 | Some err \<Rightarrow> p3)"
proof -
  let ?p1 = "snd (NextTopologicalIndex p)"
  let ?ev2 = "ev1\<lparr>TopologicalIndex := fst (NextTopologicalIndex p)\<rparr>"
  show ?thesis
  proof (cases "if w then setWireInfo ?p1 ?ev2 else Inr ?ev2")
    case (Inl err)
    with assms have "res = Some (Wrap ''SetWireInfo'' err)" "p' = ?p1"
      by (auto simp: storeAssigned_def Let_def NextTopologicalIndex_def cong: if_cong)
    then show ?thesis by (rule wire)
  next
    case (Inr ev3)
    note w = this
    show ?thesis
    proof (cases "SetEvent env (Store p) ev3")
      case (Inl err)
      with assms w have "res = Some (Wrap ''SetEvent'' err)" "p' = ?p1"
        by (auto simp: storeAssigned_def Let_def NextTopologicalIndex_def cong: if_cong)
      then show ?thesis by (rule store)
    next
      case (Inr s2)
      let ?p2 = "?p1\<lparr>Store := SetRoundCreated s2 (Frame ev3) \<lparr>Queued = False, roundEvents = []\<rparr>\<rparr>"
      from assms w Inr have
        "(case (if Root ev3 then insertRoot env fuel ev3 ?p2 else Done None ?p2) of
           Exit err \<Rightarrow> Exit err
         | Timeout \<Rightarrow> Timeout
         | Done (Some err) p3 \<Rightarrow> Done (Some err) p3
         | Done None p3 \<Rightarrow> Done None (enqueueEvent env ev3 p3)) = Done res p'"
        by (simp add: storeAssigned_def Let_def NextTopologicalIndex_def cong: if_cong)
      then obtain p3 where
        "(if Root ev3 then insertRoot env fuel ev3 ?p2 else Done None ?p2) = Done res p3"
        "p' = (case res of None \<Rightarrow> enqueueEvent env ev3 p3 | Some err \<Rightarrow> p3)"
        by (cases "if Root ev3 then insertRoot env fuel ev3 ?p2 else Done None ?p2")
          (auto split: option.splits)
      with w Inr show ?thesis by (rule stored)
    qed
  qed
qed

lemma storeAssigned_accepted:
  assumes run: "storeAssigned env fuel ev1 w p = Done None p'"
    and cons: "storeConsistent (Store p)"
  shows "\<exists>ev'. eventCache (Store p') (Hash ev1) = Some ev'
      \<and> Root ev' = Root ev1 \<and> Frame ev' = Frame ev1
      \<and> FlagTableBytes ev' = FlagTableBytes ev1 \<and> RootTableBytes ev' = RootTableBytes ev1
      \<and> LamportTimestamp ev' = LamportTimestamp ev1
      \<and> storeConsistent (Store p')
      \<and> (eventCache (Store p) (Hash ev1) = None \<longrightarrow>
            GetLast (Store p') (Creator ev1) = Inr (Hash ev1))"
  using run
proof (cases rule: storeAssigned_cases)
  case (stored ev3 s2 p3)
  let ?p1 = "snd (NextTopologicalIndex p)"
  let ?p2 = "?p1\<lparr>Store := SetRoundCreated s2 (Frame ev3) \<lparr>Queued = False, roundEvents = []\<rparr>\<rparr>"
  have f3: "Hash ev3 = Hash ev1" "Creator ev3 = Creator ev1" "Root ev3 = Root ev1"
    "Frame ev3 = Frame ev1" "FlagTableBytes ev3 = FlagTableBytes ev1"
    "RootTableBytes ev3 = RootTableBytes ev1" "LamportTimestamp ev3 = LamportTimestamp ev1"
    using stored(1) by (auto dest: setWireInfo_fields split: if_splits)
  from SetEvent_result [OF stored(2) cons]
  have s2: "storeConsistent s2" "eventCache s2 (Hash ev3) = Some ev3"
    "eventCache (Store p) (Hash ev3) = None \<longrightarrow> GetLast s2 (Creator ev3) = Inr (Hash ev3)"
    by simp_all
  have c2: "storeConsistent (Store ?p2)" using s2(1) by (simp add: storeConsistent_def)
  have k2: "eventCache (Store ?p2) (Hash ev3) = Some ev3" using s2(2) by simp
  have g2: "GetLast (Store ?p2) = GetLast s2" by (simp add: GetLast_def fun_eq_iff)
  have e3: "evolves (Store ?p2) (Store p3)"
  proof (cases "Root ev3")
    case True
    with stored(3) have "insertRoot env fuel ev3 ?p2 = Done None p3" by simp
    from insertRoot_evolves [OF c2 this] show ?thesis .
  next
    case False
    with stored(3) have "p3 = ?p2" by simp
    with c2 show ?thesis by (simp add: evolves_refl)
  qed
  from e3 k2 obtain ev' where k3: "eventCache (Store p3) (Hash ev3) = Some ev'" "core ev' = core ev3"
    by (rule evolves_lookup)
  have "GetLast (Store p3) = GetLast s2" using GetLast_evolves [OF e3] g2 by (simp add: fun_eq_iff)
  with k3 f3 s2(3) stored(4) evolves_consistent [OF e3] core_eq_fields [OF k3(2)]
  show ?thesis by (intro exI [of _ ev']) simp
qed simp_all

lemma assignFields_simps:
  "Root (assignFields env event pe ope (ft0, rt, isRoot, frame)) = isRoot"
  "Frame (assignFields env event pe ope (ft0, rt, isRoot, frame)) = frame"
  "FlagTableBytes (assignFields env event pe ope (ft0, rt, isRoot, frame)) =
     Marshal env (if isRoot then AList.update (Hash event) frame ft0 else ft0)"
  "RootTableBytes (assignFields env event pe ope (ft0, rt, isRoot, frame)) = Marshal env rt"
  "LamportTimestamp (assignFields env event pe ope (ft0, rt, isRoot, frame)) =
     (if LamportTimestamp event = LamportTimestampNIL env
      then add64 (if LamportTimestamp ope > LamportTimestamp pe
                  then LamportTimestamp ope else LamportTimestamp pe) 1
      else LamportTimestamp event)"
  by (simp_all add: assignFields_def Let_def)

lemma InsertEvent_accepted:
  assumes run: "InsertEvent env fuel event w p = Done None p'"
    and cons: "storeConsistent (Store p)"
  obtains r ev' where
    "frameAssignment env p (eventOrZero (Store p) (SelfParent event))
        (eventOrZero (Store p) (OtherParent event)) = Inr r"
    and "eventCache (Store p') (Hash event) = Some ev'"
    and "Root ev' = Root (assignFields env event (eventOrZero (Store p) (SelfParent event))
                          (eventOrZero (Store p) (OtherParent event)) r)"
    and "Frame ev' = Frame (assignFields env event (eventOrZero (Store p) (SelfParent event))
                          (eventOrZero (Store p) (OtherParent event)) r)"
    and "FlagTableBytes ev' = FlagTableBytes (assignFields env event
            (eventOrZero (Store p) (SelfParent event)) (eventOrZero (Store p) (OtherParent event)) r)"
    and "RootTableBytes ev' = RootTableBytes (assignFields env event
            (eventOrZero (Store p) (SelfParent event)) (eventOrZero (Store p) (OtherParent event)) r)"
    and "LamportTimestamp ev' = LamportTimestamp (assignFields env event
            (eventOrZero (Store p) (SelfParent event)) (eventOrZero (Store p) (OtherParent event)) r)"
    and "eventCache (Store p) (Hash event) = None \<longrightarrow>
            GetLast (Store p') (Creator event) = Inr (Hash event)"
  using run
proof (cases rule: InsertEvent_cases)
  case (assigned r)
  from storeAssigned_accepted [OF assigned(5) cons] assigned(1) that [of r] show ?thesis
    by (auto simp: assignFields_fields)
qed simp

subsection \<open>Frame assignment when the parents are in the same frame\<close>

text \<open>
  Claim C1. An event whose parents are both in the store and in the same frame,
  and that \<open>InsertEvent\<close> accepts, is stored as follows. The self-parent's flag
  table is merged with the other-parent's one (\<open>MergeFlagTable\<close>, at the parents'
  frame). If the merged table has at least \<open>GetSuperMajority\<close> entries, the event
  is stored as a root, its frame is the parents' frame plus one, its root table
  is the merged table and its flag table has the single entry that maps the
  event's own hash to its new frame. Otherwise the event is stored as a non-root
  in the parents' frame, with the merged table as its flag table.
\<close>

theorem C1_equal_frames:
  assumes run: "InsertEvent env fuel event w p = Done None p'"
    and cons: "storeConsistent (Store p)"
    and sp: "eventCache (Store p) (SelfParent event) = Some sp"
    and op: "eventCache (Store p) (OtherParent event) = Some op"
    and eq: "Frame sp = Frame op"
  shows "\<exists>otherFlagTable merged e'.
      GetFlagTable env op = Inr otherFlagTable
      \<and> MergeFlagTable env sp otherFlagTable (Frame sp) = Inr merged
      \<and> eventCache (Store p') (Hash event) = Some e'
      \<and> (if GetSuperMajority p \<le> length merged
         then Root e' \<and> Frame e' = add64 (Frame sp) 1
            \<and> RootTableBytes e' = Marshal env merged
            \<and> FlagTableBytes e' = Marshal env [(Hash event, Frame e')]
         else \<not> Root e' \<and> Frame e' = Frame sp \<and> FlagTableBytes e' = Marshal env merged)"
proof -
  have z: "eventOrZero (Store p) (SelfParent event) = sp"
    "eventOrZero (Store p) (OtherParent event) = op"
    using sp op by (simp_all add: eventOrZero_def GetEventBlock_def)
  from run cons obtain r e' where fa: "frameAssignment env p sp op = Inr r"
    and st: "eventCache (Store p') (Hash event) = Some e'"
      "Root e' = Root (assignFields env event sp op r)"
      "Frame e' = Frame (assignFields env event sp op r)"
      "FlagTableBytes e' = FlagTableBytes (assignFields env event sp op r)"
      "RootTableBytes e' = RootTableBytes (assignFields env event sp op r)"
    by (rule InsertEvent_accepted) (simp add: z)
  from fa eq obtain otherFlagTable merged where
    g: "GetFlagTable env op = Inr otherFlagTable"
    and m: "MergeFlagTable env sp otherFlagTable (Frame sp) = Inr merged"
    and r: "r = (if GetSuperMajority p \<le> length merged
                 then (NewFlagTable, merged, True, add64 (Frame sp) 1)
                 else (merged, [], False, Frame sp))"
    by (auto simp: frameAssignment_def split: sum.splits if_splits)
  show ?thesis
    using g m st r
    by (intro exI [of _ otherFlagTable] exI [of _ merged] exI [of _ e'])
      (simp add: assignFields_simps NewFlagTable_def)
qed

theorem C1_equal_frames_witness:
  "\<exists>p'. InsertEvent testEnv 1 ev30 False equalFramesState = Done None p'
     \<and> storeConsistent (Store equalFramesState)
     \<and> eventCache (Store equalFramesState) (SelfParent ev30) = Some ev10
     \<and> eventCache (Store equalFramesState) (OtherParent ev30) = Some ev20
     \<and> Frame ev10 = Frame ev20
     \<and> GetSuperMajority equalFramesState = 2
     \<and> (\<exists>e'. eventCache (Store p') 30 = Some e' \<and> Root e' \<and> Frame e' = 1
            \<and> RootTableBytes e' = encodeTable [(5, 0), (6, 0)]
            \<and> FlagTableBytes e' = encodeTable [(30, 1)])"
proof -
  have "resultOf (InsertEvent testEnv 1 ev30 False equalFramesState) = Some None"
    by code_simp
  then obtain p' where run: "InsertEvent testEnv 1 ev30 False equalFramesState = Done None p'"
    by (cases "InsertEvent testEnv 1 ev30 False equalFramesState") (simp_all add: resultOf_def)
  have cons: "storeConsistent (Store equalFramesState)"
    by (auto simp: storeConsistent_def equalFramesState_def withTimeTables_def posetWith_def
        putEvent_def testPoset_def NewPoset_def NewInmemStore_def ev10_def ev20_def
        testEvent_def zeroEvent_def split: if_splits)
  have sp: "eventCache (Store equalFramesState) (SelfParent ev30) = Some ev10"
    by (simp add: equalFramesState_def withTimeTables_def posetWith_def putEvent_def
        ev30_def ev10_def ev20_def testEvent_def zeroEvent_def)
  have op: "eventCache (Store equalFramesState) (OtherParent ev30) = Some ev20"
    by (simp add: equalFramesState_def withTimeTables_def posetWith_def putEvent_def
        ev30_def ev10_def ev20_def testEvent_def zeroEvent_def)
  have eq: "Frame ev10 = Frame ev20" "Frame ev10 = 0" "Hash ev30 = 30"
    by (simp_all add: ev10_def ev20_def ev30_def testEvent_def zeroEvent_def)
  have sm: "GetSuperMajority equalFramesState = 2"
    by code_simp
  have ft: "GetFlagTable testEnv ev20 = Inr [(6, 0)]"
    by code_simp
  have mg: "MergeFlagTable testEnv ev10 [(6, 0)] 0 = Inr [(5, 0), (6, 0)]"
    by code_simp
  have ma: "Marshal testEnv = encodeTable"
    by (simp add: testEnv_def)
  have a1: "add64 0 1 = 1"
    by code_simp
  from C1_equal_frames [OF run cons sp op eq(1)] ft mg sm eq ma a1 run cons sp op
  show ?thesis
    by auto
qed

subsection \<open>Frame assignment when the other-parent is ahead\<close>

text \<open>
  Claim C2, against the claim as stated. In \<open>otherAheadState\<close> the parents of event
  31 are event 10 (frame 0, flag table \<open>{5: 0}\<close>) and event 22 (frame 1, flag table
  \<open>{22: 1}\<close>). The root of the other-parent's creator registered for frame 0, the
  other-parent's frame minus one, is event 21, with root table \<open>{8: 0}\<close>; the one
  registered for frame 1 is event 22, with root table \<open>{7: 0}\<close>. \<open>InsertEvent\<close>
  accepts event 31 and stores it with the root table \<open>{5: 0, 7: 0}\<close>, which is not
  the merge \<open>{5: 0, 8: 0}\<close> with the root table of event 21, and with the flag
  table \<open>{22: 1, 31: 1}\<close>, which is not the other-parent's flag table.
\<close>

theorem C2_root_of_previous_frame_not_used:
  "resultOf (InsertEvent testEnv 1 ev31 False otherAheadState) = Some None
   \<and> eventCache (Store otherAheadState) (SelfParent ev31) = Some ev10
   \<and> eventCache (Store otherAheadState) (OtherParent ev31) = Some ev22
   \<and> Frame ev10 < Frame ev22
   \<and> GetClothoCreatorCheck (Store otherAheadState) (Frame ev22 - 1) (CreatorID ev22) = Inr 21
   \<and> eventCache (Store otherAheadState) 21 = Some ev21
   \<and> GetRootTable testEnv ev21 = Inr [(8, 0)]
   \<and> MergeFlagTable testEnv ev10 [(8, 0)] (Frame ev22 - 1) = Inr [(5, 0), (8, 0)]
   \<and> map_option RootTableBytes (storedAfter (InsertEvent testEnv 1 ev31 False otherAheadState) 31)
       = Some (encodeTable [(5, 0), (7, 0)])
   \<and> encodeTable [(5, 0), (7, 0)] \<noteq> encodeTable [(5, 0), (8, 0)]
   \<and> map_option FlagTableBytes (storedAfter (InsertEvent testEnv 1 ev31 False otherAheadState) 31)
       = Some (encodeTable [(22, 1), (31, 1)])
   \<and> FlagTableBytes ev22 = encodeTable [(22, 1)]
   \<and> encodeTable [(22, 1), (31, 1)] \<noteq> encodeTable [(22, 1)]"
  by code_simp

text \<open>
  Claim C2, as the code has it. An event whose parents are both in the store,
  with the self-parent's frame below the other-parent's, and that \<open>InsertEvent\<close>
  accepts, is stored as a root in the other-parent's frame. Its root table is
  the self-parent's flag table merged (\<open>MergeFlagTable\<close>, at the other-parent's
  frame minus one) with the root table of the event registered for the
  other-parent's creator at the other-parent's own frame. Its flag table is the
  other-parent's flag table with one more entry, which maps the event's own hash
  to its frame.
\<close>

theorem C2_other_parent_ahead:
  assumes run: "InsertEvent env fuel event w p = Done None p'"
    and cons: "storeConsistent (Store p)"
    and sp: "eventCache (Store p) (SelfParent event) = Some sp"
    and op: "eventCache (Store p) (OtherParent event) = Some op"
    and lt: "Frame sp < Frame op"
  shows "\<exists>otherRoot otherRootTable merged opTable e'.
      GetClothoCreatorCheck (Store p) (Frame op) (CreatorID op) = Inr otherRoot
      \<and> GetRootTable env (eventOrZero (Store p) otherRoot) = Inr otherRootTable
      \<and> MergeFlagTable env sp otherRootTable (sub64 (Frame op) 1) = Inr merged
      \<and> GetFlagTable env op = Inr opTable
      \<and> eventCache (Store p') (Hash event) = Some e'
      \<and> Root e' \<and> Frame e' = Frame op
      \<and> RootTableBytes e' = Marshal env merged
      \<and> FlagTableBytes e' = Marshal env (AList.update (Hash event) (Frame op) opTable)"
proof -
  have z: "eventOrZero (Store p) (SelfParent event) = sp"
    "eventOrZero (Store p) (OtherParent event) = op"
    using sp op by (simp_all add: eventOrZero_def GetEventBlock_def)
  from run cons obtain r e' where fa: "frameAssignment env p sp op = Inr r"
    and st: "eventCache (Store p') (Hash event) = Some e'"
      "Root e' = Root (assignFields env event sp op r)"
      "Frame e' = Frame (assignFields env event sp op r)"
      "FlagTableBytes e' = FlagTableBytes (assignFields env event sp op r)"
      "RootTableBytes e' = RootTableBytes (assignFields env event sp op r)"
    by (rule InsertEvent_accepted) (simp add: z)
  from fa lt obtain otherRoot otherRootTable merged opTable where
    g: "GetClothoCreatorCheck (Store p) (Frame op) (CreatorID op) = Inr otherRoot"
      "GetRootTable env (eventOrZero (Store p) otherRoot) = Inr otherRootTable"
      "MergeFlagTable env sp otherRootTable (sub64 (Frame op) 1) = Inr merged"
      "GetFlagTable env op = Inr opTable"
    and r: "r = (opTable, merged, True, Frame op)"
    by (auto simp: frameAssignment_def Let_def split: sum.splits if_splits)
  show ?thesis
    using g st r
    by (intro exI [of _ otherRoot] exI [of _ otherRootTable] exI [of _ merged]
        exI [of _ opTable] exI [of _ e'])
      (simp add: assignFields_simps)
qed

theorem C2_other_parent_ahead_witness:
  "\<exists>p'. InsertEvent testEnv 1 ev31 False otherAheadState = Done None p'
     \<and> storeConsistent (Store otherAheadState)
     \<and> eventCache (Store otherAheadState) (SelfParent ev31) = Some ev10
     \<and> eventCache (Store otherAheadState) (OtherParent ev31) = Some ev22
     \<and> Frame ev10 < Frame ev22
     \<and> (\<exists>e'. eventCache (Store p') 31 = Some e' \<and> Root e' \<and> Frame e' = 1
            \<and> RootTableBytes e' = encodeTable [(5, 0), (7, 0)]
            \<and> FlagTableBytes e' = encodeTable [(22, 1), (31, 1)])"
proof -
  have "resultOf (InsertEvent testEnv 1 ev31 False otherAheadState) = Some None"
    by code_simp
  then obtain p' where run: "InsertEvent testEnv 1 ev31 False otherAheadState = Done None p'"
    by (cases "InsertEvent testEnv 1 ev31 False otherAheadState") (simp_all add: resultOf_def)
  have cons: "storeConsistent (Store otherAheadState)"
    by (auto simp: storeConsistent_def otherAheadState_def withTimeTables_def
        withCreatorCheck_def posetWith_def putEvent_def testPoset_def NewPoset_def
        NewInmemStore_def ev10_def ev21_def ev22_def testEvent_def zeroEvent_def
        split: if_splits)
  have sp: "eventCache (Store otherAheadState) (SelfParent ev31) = Some ev10"
    by (simp add: otherAheadState_def withTimeTables_def withCreatorCheck_def posetWith_def
        putEvent_def ev31_def ev10_def ev21_def ev22_def testEvent_def zeroEvent_def)
  have op: "eventCache (Store otherAheadState) (OtherParent ev31) = Some ev22"
    by (simp add: otherAheadState_def withTimeTables_def withCreatorCheck_def posetWith_def
        putEvent_def ev31_def ev10_def ev21_def ev22_def testEvent_def zeroEvent_def)
  have lt: "Frame ev10 < Frame ev22" "Frame ev22 = 1" "Hash ev31 = 31"
    by (simp_all add: ev10_def ev22_def ev31_def testEvent_def zeroEvent_def)
  have cc: "GetClothoCreatorCheck (Store otherAheadState) 1 (CreatorID ev22) = Inr 22"
    by code_simp
  have rt: "GetRootTable testEnv (eventOrZero (Store otherAheadState) 22) = Inr [(7, 0)]"
    by code_simp
  have mg: "MergeFlagTable testEnv ev10 [(7, 0)] (sub64 1 1) = Inr [(5, 0), (7, 0)]"
    by code_simp
  have ft: "GetFlagTable testEnv ev22 = Inr [(22, 1)]"
    by code_simp
  have up: "AList.update 31 1 [(22, 1)] = [(22 :: nat, 1 :: int), (31, 1)]"
    by simp
  have ma: "Marshal testEnv = encodeTable"
    by (simp add: testEnv_def)
  from C2_other_parent_ahead [OF run cons sp op lt(1)] cc rt mg ft up ma lt run cons sp op
  show ?thesis
    by auto
qed

subsection \<open>Lamport timestamps\<close>

text \<open>
  Claim C7. The first event of a participant, whose self-parent is the base root
  and which has no other-parent, is accepted by \<open>InsertEvent\<close> and stored with the
  lamport timestamp 1: the self-parent is not in the store, so \<open>InsertEvent\<close> adds
  one to the timestamp 0 of the zero event. For the same event in the resulting
  state \<open>lamportTimestamp\<close> returns 0, one more than the timestamp -1 of the root
  descriptor. The two computations disagree, and the stored value of a leaf event
  is not 0.
\<close>

theorem C7_leaf_lamport_disagrees:
  "resultOf (InsertEvent testEnv 1 leafEvent False (testPoset [1])) = Some None
   \<and> LamportTimestamp leafEvent = LamportTimestampNIL testEnv
   \<and> eventCache (Store (testPoset [1])) (SelfParent leafEvent) = None
   \<and> Zero (OtherParent leafEvent)
   \<and> map_option (\<lambda>root. (reHash (rootSelfParent root), reLamportTimestamp (rootSelfParent root)))
        (map_of (rootsByParticipant (Store (testPoset [1]))) (Creator leafEvent))
       = Some (SelfParent leafEvent, - 1)
   \<and> map_option LamportTimestamp
        (storedAfter (InsertEvent testEnv 1 leafEvent False (testPoset [1])) (Hash leafEvent))
       = Some 1
   \<and> lamportAfter (InsertEvent testEnv 1 leafEvent False (testPoset [1])) 2 (Hash leafEvent)
       = Some (Inr 0)"
  by code_simp

subsection \<open>State changes of a failed InsertEvent\<close>




subsection \<open>Forks\<close>

text \<open>
  Claim C5, against the claim as stated. \<open>leafEvent\<close>, by participant 1 at index 0,
  is accepted. \<open>sameIndexEvent\<close> is a different event by the same participant at
  the same index 0, whose self-parent is \<open>leafEvent\<close>: \<open>InsertEvent\<close> accepts it too
  and stores it, since \<open>checkSelfParent\<close> compares the self-parent with the
  creator's last event and never looks at the index.
\<close>

theorem C5_same_index_accepted:
  "resultOf (InsertEvent testEnv 1 leafEvent False (testPoset [1])) = Some None
   \<and> map_option (\<lambda>e. (Creator e, Index e)) (eventCache (Store afterLeaf) (Hash leafEvent))
       = Some (Creator sameIndexEvent, Index sameIndexEvent)
   \<and> Hash sameIndexEvent \<noteq> Hash leafEvent
   \<and> eventCache (Store afterLeaf) (Hash sameIndexEvent) = None
   \<and> resultOf (InsertEvent testEnv 1 sameIndexEvent False afterLeaf) = Some None
   \<and> map_option (\<lambda>e. (Creator e, Index e, SelfParent e))
        (storedAfter (InsertEvent testEnv 1 sameIndexEvent False afterLeaf) (Hash sameIndexEvent))
       = Some (Creator leafEvent, Index leafEvent, Hash leafEvent)"
  by code_simp

text \<open>
  Claim C5, as the code has it. Let \<open>InsertEvent\<close> accept an event \<open>e1\<close> that the
  store did not hold, and let \<open>e1'\<close> be an event with a valid signature, the same
  creator and the same self-parent as \<open>e1\<close> (which is not \<open>e1\<close> itself). Then
  \<open>InsertEvent\<close> rejects \<open>e1'\<close> with the error of \<open>checkSelfParent\<close>, and the state is
  unchanged.
\<close>

theorem C5_fork_rejected:
  assumes acc: "InsertEvent env fuel e1 w p = Done None p1"
    and cons: "storeConsistent (Store p)"
    and new: "eventCache (Store p) (Hash e1) = None"
    and creator: "Creator e1' = Creator e1"
    and parent: "SelfParent e1' = SelfParent e1"
    and self: "SelfParent e1 \<noteq> Hash e1"
    and ver: "fst (Verify env e1')"
  shows "InsertEvent env fuel' e1' w' p1 =
     Done (Some (Wrap ''CheckSelfParent'' (Msg ''self-parent not last known event by creator''))) p1"
proof -
  from acc cons obtain r ev' where
    "eventCache (Store p) (Hash e1) = None \<longrightarrow> GetLast (Store p1) (Creator e1) = Inr (Hash e1)"
    by (rule InsertEvent_accepted)
  with new have "GetLast (Store p1) (Creator e1') = Inr (Hash e1)"
    by (simp add: creator)
  with parent self have "checkSelfParent p1 e1' =
      Some (Msg ''self-parent not last known event by creator'')"
    by (simp add: checkSelfParent_def LastEventFrom_def)
  with ver show ?thesis
    by (cases "Verify env e1'") (auto simp: InsertEvent_def)
qed

theorem C5_fork_rejected_witness:
  "InsertEvent testEnv 1 leafEvent False (testPoset [1]) = Done None afterLeaf
   \<and> storeConsistent (Store (testPoset [1]))
   \<and> eventCache (Store (testPoset [1])) (Hash leafEvent) = None
   \<and> Creator forkEvent = Creator leafEvent
   \<and> Index forkEvent = Index leafEvent
   \<and> SelfParent forkEvent = SelfParent leafEvent
   \<and> forkEvent \<noteq> leafEvent
   \<and> SelfParent leafEvent \<noteq> Hash leafEvent
   \<and> fst (Verify testEnv forkEvent)
   \<and> InsertEvent testEnv 1 forkEvent False afterLeaf =
       Done (Some (Wrap ''CheckSelfParent'' (Msg ''self-parent not last known event by creator'')))
         afterLeaf"
proof -
  have "resultOf (InsertEvent testEnv 1 leafEvent False (testPoset [1])) = Some None"
    by code_simp
  then have acc: "InsertEvent testEnv 1 leafEvent False (testPoset [1]) = Done None afterLeaf"
    by (cases "InsertEvent testEnv 1 leafEvent False (testPoset [1])")
      (simp_all add: resultOf_def afterLeaf_def)
  have cons: "storeConsistent (Store (testPoset [1]))"
    by (simp add: storeConsistent_def testPoset_def NewPoset_def NewInmemStore_def)
  have new: "eventCache (Store (testPoset [1])) (Hash leafEvent) = None"
    by (simp add: testPoset_def NewPoset_def NewInmemStore_def)
  have ev: "Creator forkEvent = Creator leafEvent" "SelfParent forkEvent = SelfParent leafEvent"
    "SelfParent leafEvent \<noteq> Hash leafEvent" "Index forkEvent = Index leafEvent"
    "forkEvent \<noteq> leafEvent"
    by (simp_all add: forkEvent_def leafEvent_def testEvent_def zeroEvent_def)
  have ver: "fst (Verify testEnv forkEvent)"
    by (simp add: testEnv_def)
  from C5_fork_rejected [OF acc cons new ev(1) ev(2) ev(3) ver, of 1 False] acc cons new ev ver
  show ?thesis
    by simp
qed

subsection \<open>Promotion to atropos\<close>




subsection \<open>The order of a frame's events\<close>

lemma ByLamportTimestamp_Less_key:
  "ByLamportTimestamp_Less env a b \<longleftrightarrow> sortKey env a < sortKey env b"
  by (auto simp: ByLamportTimestamp_Less_def sortKey_def)

lemma insertStable_insort_key:
  "insertStable (ByLamportTimestamp_Less env) x ys = insort_key (sortKey env) x ys"
  by (induction ys) (auto simp: ByLamportTimestamp_Less_key)

lemma sortStable_sort_key:
  "sortStable (ByLamportTimestamp_Less env) xs = sort_key (sortKey env) xs"
  by (induction xs) (simp_all add: sortStable_def insertStable_insort_key)

lemma collectEvents_stored:
  "collectEvents s hs = Inr es \<Longrightarrow> list_all2 (\<lambda>h e. eventCache s h = Some e) hs es"
  by (induction hs arbitrary: es)
    (auto simp: GetEventBlock_def split: sum.splits option.splits)

text \<open>
  Claim C4. When the first part of \<open>MakeFrame\<close> returns, its events are the events
  stored under the hashes of the received round, rearranged: they are in
  ascending order of the key (atropos timestamp, lamport timestamp, flag-table
  hash, signature XOR), compared lexicographically, and events with equal keys
  keep the order they have in the round.
\<close>

theorem C4_MakeFrame_order:
  assumes "MakeFrame_events env p roundReceived = Inr events"
  shows "sorted (map (sortKey env) events)
     \<and> (\<exists>round collected. GetRoundReceived (Store p) roundReceived = Inr round
          \<and> list_all2 (\<lambda>h e. eventCache (Store p) h = Some e) (Rounds round) collected
          \<and> mset events = mset collected
          \<and> (\<forall>k. filter (\<lambda>e. sortKey env e = k) events
                 = filter (\<lambda>e. sortKey env e = k) collected))"
proof -
  from assms obtain round collected where
    r: "GetRoundReceived (Store p) roundReceived = Inr round"
    and c: "collectEvents (Store p) (Rounds round) = Inr collected"
    and e: "events = sort_key (sortKey env) collected"
    by (auto simp: MakeFrame_events_def sortStable_sort_key split: sum.splits)
  have "sorted (map (sortKey env) events)"
    by (simp add: e)
  moreover have "mset events = mset collected"
    by (simp add: e)
  moreover have "\<forall>k. filter (\<lambda>e. sortKey env e = k) events
      = filter (\<lambda>e. sortKey env e = k) collected"
    by (simp add: e sort_key_stable)
  ultimately show ?thesis
    using r collectEvents_stored [OF c] by blast
qed

theorem C4_MakeFrame_order_witness:
  "MakeFrame_events testEnv frameState 3 = Inr [ev63, ev62, ev61]
   \<and> map (sortKey testEnv) [ev63, ev62, ev61] = [(7, 1, 4, 0), (7, 1, 9, 0), (7, 2, 0, 0)]
   \<and> sorted (map (sortKey testEnv) [ev63, ev62, ev61])"
proof -
  have run: "MakeFrame_events testEnv frameState 3 = Inr [ev63, ev62, ev61]"
    by code_simp
  have keys: "map (sortKey testEnv) [ev63, ev62, ev61] = [(7, 1, 4, 0), (7, 1, 9, 0), (7, 2, 0, 0)]"
    by code_simp
  from C4_MakeFrame_order [OF run] run keys show ?thesis
    by simp
qed

end
